theory Spec2Isabelle
  imports
    Complex_Main
    "HOL-Library.Char_ord"
    "HOL-Library.List_Lexorder"
    "HOL-Library.Product_Lexorder"
    "HOL-Library.Sublist"
begin

section \<open>Python values, exceptions and string operations\<close>

text \<open>
  The sources are Python. Text is modelled as \<open>string\<close> (a list of 8-bit characters), so
  the embedding covers ASCII text: \<open>str.lower\<close>, \<open>str.isspace\<close>, \<open>\d\<close> and \<open>\s\<close> are
  modelled on the ASCII range. Exceptions are values of \<open>py_exn\<close>, which stands for the
  subclasses of \<open>Exception\<close> (what \<open>except Exception\<close> catches); a function that can raise
  returns \<open>py_exn + 'a\<close> with \<open>Inl\<close> for the exception.
\<close>

datatype py_exn =
    AttributeError
  | TypeError
  | ValueError
  | IndexError
  | KeyError
  | FileNotFoundError
  | OSError
  | XMLParseError
  | RuntimeError

text \<open>
  A dictionary entry read with \<open>d.get(k)\<close>: the key can be absent, present with the value
  \<open>None\<close>, or present with a proper value. \<open>d.get(k)\<close> maps the first two to \<open>None\<close>;
  \<open>d.get(k, dflt)\<close> maps only the absent key to the default.
\<close>

datatype 'a pyval = Absent | PyNone | Val 'a

fun dict_get :: "'a pyval \<Rightarrow> 'a option" where
  "dict_get Absent = None"
| "dict_get PyNone = None"
| "dict_get (Val x) = Some x"

fun dict_get_default :: "'a pyval \<Rightarrow> 'a \<Rightarrow> 'a option" where
  "dict_get_default Absent d = Some d"
| "dict_get_default PyNone d = None"
| "dict_get_default (Val x) d = Some x"

definition py_isspace :: "char \<Rightarrow> bool" where
  \<comment> \<open>\<open>str.isspace\<close> on ASCII: TAB, LF, VT, FF, CR, the separators 0x1C..0x1F, and space.\<close>
  "py_isspace c = (of_char c \<in> {9, 10, 11, 12, 13, 28, 29, 30, 31, 32 :: nat})"

definition py_isdigit :: "char \<Rightarrow> bool" where
  "py_isdigit c = (48 \<le> (of_char c :: nat) \<and> (of_char c :: nat) \<le> 57)"

definition py_lower_char :: "char \<Rightarrow> char" where
  \<comment> \<open>\<open>A\<close>..\<open>Z\<close> are the codes 65..90; adding 32 sets bit 5, which is clear in that range\<close>
  "py_lower_char c =
     (if 65 \<le> (of_char c :: nat) \<and> (of_char c :: nat) \<le> 90
      then (case c of Char b0 b1 b2 b3 b4 b5 b6 b7 \<Rightarrow> Char b0 b1 b2 b3 b4 True b6 b7)
      else c)"

definition py_lower :: "string \<Rightarrow> string" where
  "py_lower s = map py_lower_char s"

definition py_strip :: "string \<Rightarrow> string" where
  \<comment> \<open>\<open>s.strip()\<close>\<close>
  "py_strip s = rev (dropWhile py_isspace (rev (dropWhile py_isspace s)))"

fun starts_with :: "string \<Rightarrow> string \<Rightarrow> bool" where
  \<comment> \<open>\<open>starts_with p s\<close> is \<open>s.startswith(p)\<close>\<close>
  "starts_with [] s = True"
| "starts_with (p # ps) [] = False"
| "starts_with (p # ps) (c # cs) = (p = c \<and> starts_with ps cs)"

fun str_contains :: "string \<Rightarrow> string \<Rightarrow> bool" where
  \<comment> \<open>\<open>str_contains p s\<close> is \<open>p in s\<close>\<close>
  "str_contains p [] = (p = [])"
| "str_contains p (c # cs) = (starts_with p (c # cs) \<or> str_contains p cs)"

fun split_ws_aux :: "string \<Rightarrow> string \<Rightarrow> string list" where
  "split_ws_aux cur [] = (if cur = [] then [] else [rev cur])"
| "split_ws_aux cur (c # cs) =
     (if py_isspace c
      then (if cur = [] then split_ws_aux [] cs else rev cur # split_ws_aux [] cs)
      else split_ws_aux (c # cur) cs)"

definition py_split_ws :: "string \<Rightarrow> string list" where
  \<comment> \<open>\<open>s.split()\<close>: fields separated by runs of whitespace, no empty field\<close>
  "py_split_ws s = split_ws_aux [] s"

fun py_split :: "char \<Rightarrow> string \<Rightarrow> string list" where
  \<comment> \<open>\<open>s.split(sep)\<close> for a one-character separator: always at least one field\<close>
  "py_split sep [] = [[]]"
| "py_split sep (c # cs) =
     (if c = sep then [] # py_split sep cs
      else (case py_split sep cs of
              [] \<Rightarrow> [[c]]
            | w # ws \<Rightarrow> (c # w) # ws))"

text \<open>
  The files are opened with \<open>open(path, "r")\<close>, that is with universal newlines: on
  reading, a carriage return followed by a line feed, and a carriage return alone, each
  become one line feed. The flag says that the previous character was a carriage return,
  so that a line feed right after it is dropped.
\<close>

fun universal_newlines_aux :: "bool \<Rightarrow> string \<Rightarrow> string" where
  "universal_newlines_aux after_cr [] = []"
| "universal_newlines_aux after_cr (c # cs) =
     (if c = CHR 0x0D then CHR 0x0A # universal_newlines_aux True cs
      else if c = CHR 0x0A \<and> after_cr then universal_newlines_aux False cs
      else c # universal_newlines_aux False cs)"

definition universal_newlines :: "string \<Rightarrow> string" where
  "universal_newlines s = universal_newlines_aux False s"

fun file_lines_aux :: "string \<Rightarrow> string \<Rightarrow> string list" where
  "file_lines_aux cur [] = (if cur = [] then [] else [rev cur])"
| "file_lines_aux cur (c # cs) =
     (if c = CHR 0x0A then rev (c # cur) # file_lines_aux [] cs
      else file_lines_aux (c # cur) cs)"

definition file_lines :: "string \<Rightarrow> string list" where
  \<comment> \<open>\<open>for line in f\<close> on the text of a file: the lines as the program reads them, each
      with its terminating newline, which is a line feed whatever the file has\<close>
  "file_lines s = file_lines_aux [] (universal_newlines s)"


section \<open>Greppable summary: \<open>summarize_gnmap\<close> (nmapai.py)\<close>

text \<open>
  \<open>re.sub(r"^.*Ports:\s*", "", parts)\<close>: the pattern is anchored at the start of the
  string, \<open>.*\<close> is greedy and does not cross a newline, so the match ends at the last
  \<open>Ports:\<close> of the first line and then swallows the whitespace after it. Without a match
  the string is returned as it is.
\<close>

fun after_last_ports :: "string \<Rightarrow> string option" where
  "after_last_ports [] = None"
| "after_last_ports (c # cs) =
     (if c = CHR 0x0A then None
      else (case after_last_ports cs of
              Some r \<Rightarrow> Some r
            | None \<Rightarrow> (if starts_with ''Ports:'' (c # cs) then Some (drop 6 (c # cs)) else None)))"

definition re_sub_ports :: "string \<Rightarrow> string" where
  "re_sub_ports s =
     (case after_last_ports s of None \<Rightarrow> s | Some r \<Rightarrow> dropWhile py_isspace r)"

type_synonym row = "string \<times> string \<times> string \<times> string"

definition seg_rows :: "string \<Rightarrow> string \<Rightarrow> row list" where
  \<comment> \<open>the body of \<open>for seg in ports_str.split(",")\<close>\<close>
  "seg_rows host seg0 =
     (let seg = py_strip seg0 in
      if str_contains ''open'' seg then
        (let bits = py_split (CHR ''/'') seg in
         if length bits \<ge> 5 then
           (let port = bits ! 0; state = bits ! 1; proto = bits ! 2;
                svc = (if bits ! 4 = [] then ''-'' else bits ! 4)
            in if state = ''open'' then [(host, port, proto, svc)] else [])
         else [])
      else [])"

definition line_rows :: "string \<Rightarrow> py_exn + row list" where
  \<comment> \<open>the body of \<open>for line in f\<close>; \<open>parts.split()[1]\<close> raises IndexError on a short list\<close>
  "line_rows line =
     (if str_contains ''Host: '' line \<and> str_contains ''Ports: '' line then
        (let parts = py_strip line in
         (case py_split_ws parts of
            h0 # host # rest \<Rightarrow>
              Inr (concat (map (seg_rows host) (py_split (CHR '','') (re_sub_ports parts))))
          | _ \<Rightarrow> Inl IndexError))
      else Inr [])"

fun gnmap_rows :: "string list \<Rightarrow> py_exn + row list" where
  "gnmap_rows [] = Inr []"
| "gnmap_rows (l # ls) =
     (case line_rows l of
        Inl e \<Rightarrow> Inl e
      | Inr rs \<Rightarrow> (case gnmap_rows ls of Inl e \<Rightarrow> Inl e | Inr rs' \<Rightarrow> Inr (rs @ rs')))"

definition summarize_gnmap :: "string option \<Rightarrow> py_exn + row list option" where
  \<comment> \<open>The argument is the text of the greppable file, \<open>None\<close> when the file does not exist.
      The result is the table written to the CSV and JSON summaries (\<open>sorted(set(rows))\<close>),
      \<open>None\<close> when the function returns before writing anything.\<close>
  "summarize_gnmap gnmap =
     (case gnmap of
        None \<Rightarrow> Inr None
      | Some content \<Rightarrow>
          if content = [] then Inr None
          else (case gnmap_rows (file_lines content) of
                  Inl e \<Rightarrow> Inl e
                | Inr rows \<Rightarrow> Inr (Some (sort (remdups rows)))))"


section \<open>Structured report: \<open>NmapScanner._parse_xml\<close> and \<open>_parse_host\<close>\<close>

text \<open>
  The element tree that \<open>xml.etree.ElementTree\<close> hands to the parser: a tag, the
  attributes and the child elements in document order. Text content is not read by the
  parser and is left out.
\<close>

datatype xml = Element (tag: string) (attrib: "(string \<times> string) list") (children: "xml list")

definition get_attr :: "xml \<Rightarrow> string \<Rightarrow> string option" where
  \<comment> \<open>\<open>elem.get(key)\<close>\<close>
  "get_attr e k = map_of (attrib e) k"

fun descendants :: "xml \<Rightarrow> xml list" where
  \<comment> \<open>all elements below \<open>e\<close> in document order, \<open>e\<close> itself excluded\<close>
  "descendants (Element t a cs) = concat (map (\<lambda>c. c # descendants c) cs)"

definition findall_desc :: "string \<Rightarrow> xml \<Rightarrow> xml list" where
  \<comment> \<open>\<open>e.findall(".//t")\<close>\<close>
  "findall_desc t e = filter (\<lambda>c. tag c = t) (descendants e)"

definition find_desc :: "string \<Rightarrow> xml \<Rightarrow> xml option" where
  \<comment> \<open>\<open>e.find(".//t")\<close>: the first match in document order\<close>
  "find_desc t e = (case findall_desc t e of [] \<Rightarrow> None | x # xs \<Rightarrow> Some x)"

definition find_child :: "string \<Rightarrow> xml \<Rightarrow> xml option" where
  \<comment> \<open>\<open>e.find("t")\<close>: the first child with that tag\<close>
  "find_child t e = List.find (\<lambda>c. tag c = t) (children e)"

definition findall_child :: "string \<Rightarrow> xml \<Rightarrow> xml list" where
  \<comment> \<open>\<open>e.findall("t")\<close>\<close>
  "findall_child t e = filter (\<lambda>c. tag c = t) (children e)"

definition find_child_attr :: "string \<Rightarrow> string \<Rightarrow> string \<Rightarrow> xml \<Rightarrow> xml option" where
  \<comment> \<open>\<open>e.find("t[@k='v']")\<close>\<close>
  "find_child_attr t k v e = List.find (\<lambda>c. tag c = t \<and> get_attr c k = Some v) (children e)"

definition find_user_hostname :: "xml \<Rightarrow> xml option" where
  \<comment> \<open>\<open>e.find("hostnames/hostname[@type='user']")\<close>\<close>
  "find_user_hostname e =
     List.find (\<lambda>c. tag c = ''hostname'' \<and> get_attr c ''type'' = Some ''user'')
       (concat (map children (findall_child ''hostnames'' e)))"

text \<open>
  \<open>int(s)\<close> on a string: surrounding whitespace is stripped (for ASCII text that is TAB, LF,
  VT, FF, CR and space; the separators 0x1C..0x1F are not stripped here), one sign is
  allowed, and the digits may be grouped by single underscores. Anything else raises
  ValueError; \<open>int(None)\<close> raises TypeError. (The interpreter's limit on the number of
  digits is not modelled.)
\<close>

definition int_isspace :: "char \<Rightarrow> bool" where
  "int_isspace c = (of_char c \<in> {9, 10, 11, 12, 13, 32 :: nat})"

definition int_strip :: "string \<Rightarrow> string" where
  "int_strip s = rev (dropWhile int_isspace (rev (dropWhile int_isspace s)))"

fun parse_digits :: "nat \<Rightarrow> bool \<Rightarrow> string \<Rightarrow> nat option" where
  "parse_digits acc lastd [] = (if lastd then Some acc else None)"
| "parse_digits acc lastd (c # cs) =
     (if py_isdigit c then parse_digits (10 * acc + (of_char c - 48)) True cs
      else if c = CHR ''_'' \<and> lastd then parse_digits acc False cs
      else None)"

definition py_int_str :: "string \<Rightarrow> py_exn + int" where
  "py_int_str s =
     (case int_strip s of
        [] \<Rightarrow> Inl ValueError
      | c # cs \<Rightarrow>
          (case (if c = CHR ''-'' then map_option (\<lambda>n. - int n) (parse_digits 0 False cs)
                 else if c = CHR ''+'' then map_option int (parse_digits 0 False cs)
                 else map_option int (parse_digits 0 False (c # cs))) of
             None \<Rightarrow> Inl ValueError
           | Some i \<Rightarrow> Inr i))"

definition py_int_opt :: "string option \<Rightarrow> py_exn + int" where
  \<comment> \<open>\<open>int(elem.get(key))\<close>\<close>
  "py_int_opt a = (case a of None \<Rightarrow> Inl TypeError | Some s \<Rightarrow> py_int_str s)"

record service_info =
  svc_name :: string
  svc_product :: "string option"
  svc_version :: "string option"
  svc_extrainfo :: "string option"

record script_info =
  script_id :: "string option"
  script_output :: "string option"

text \<open>
  The port dictionary. The keys \<open>service\<close> and \<open>scripts\<close> are only set when the element
  has a service child, respectively at least one script child: \<open>None\<close> is the absent key.
\<close>

record port_data =
  port :: int
  protocol :: "string option"
  state :: "string option"
  service :: "service_info option"
  scripts :: "script_info list option"

record os_info =
  os_name :: "string option"
  accuracy :: int

record host_data =
  ip :: "string option"
  hostname :: "string option"
  ports :: "port_data list"
  os :: "os_info option"
  host_state :: string

text \<open>
  A \<open>for\<close> loop whose body either raises, skips the item (\<open>continue\<close>, or a \<open>None\<close> result)
  or appends one record to the result list.
\<close>

fun for_collect :: "('a \<Rightarrow> py_exn + 'b option) \<Rightarrow> 'a list \<Rightarrow> py_exn + 'b list" where
  "for_collect f [] = Inr []"
| "for_collect f (x # xs) =
     (case f x of
        Inl e \<Rightarrow> Inl e
      | Inr r \<Rightarrow>
          (case for_collect f xs of
             Inl e \<Rightarrow> Inl e
           | Inr rs \<Rightarrow> Inr (case r of None \<Rightarrow> rs | Some y \<Rightarrow> y # rs)))"

definition parse_service :: "xml \<Rightarrow> service_info" where
  "parse_service se =
     \<lparr> svc_name = (case get_attr se ''name'' of None \<Rightarrow> ''unknown'' | Some n \<Rightarrow> n),
       svc_product = get_attr se ''product'',
       svc_version = get_attr se ''version'',
       svc_extrainfo = get_attr se ''extrainfo'' \<rparr>"

definition parse_script :: "xml \<Rightarrow> script_info" where
  "parse_script se = \<lparr> script_id = get_attr se ''id'', script_output = get_attr se ''output'' \<rparr>"

definition port_is_open :: "xml \<Rightarrow> bool" where
  \<comment> \<open>the negation of \<open>state_elem is None or state_elem.get("state") != "open"\<close>\<close>
  "port_is_open pe =
     (case find_child ''state'' pe of
        None \<Rightarrow> False
      | Some st \<Rightarrow> get_attr st ''state'' = Some ''open'')"

definition parse_port :: "xml \<Rightarrow> py_exn + port_data option" where
  \<comment> \<open>the body of \<open>for port_elem in host_elem.findall(".//port")\<close>\<close>
  "parse_port pe =
     (case find_child ''state'' pe of
        None \<Rightarrow> Inr None
      | Some st \<Rightarrow>
          if get_attr st ''state'' \<noteq> Some ''open'' then Inr None
          else (case py_int_opt (get_attr pe ''portid'') of
                  Inl e \<Rightarrow> Inl e
                | Inr n \<Rightarrow>
                    Inr (Some \<lparr> port = n,
                                protocol = get_attr pe ''protocol'',
                                state = get_attr st ''state'',
                                service = map_option parse_service (find_child ''service'' pe),
                                scripts = (case map parse_script (findall_child ''script'' pe) of
                                             [] \<Rightarrow> None
                                           | sc # scs \<Rightarrow> Some (sc # scs)) \<rparr>)))"

definition find_address :: "xml \<Rightarrow> xml option" where
  \<comment> \<open>the IPv4 address element, else the IPv6 one\<close>
  "find_address he =
     (case find_child_attr ''address'' ''addrtype'' ''ipv4'' he of
        Some a \<Rightarrow> Some a
      | None \<Rightarrow> find_child_attr ''address'' ''addrtype'' ''ipv6'' he)"

definition parse_os :: "xml \<Rightarrow> py_exn + os_info option" where
  \<comment> \<open>\<open>int(os_elem.get("accuracy", 0))\<close>: the default is the integer 0\<close>
  "parse_os he =
     (case find_desc ''osmatch'' he of
        None \<Rightarrow> Inr None
      | Some oe \<Rightarrow>
          (case (case get_attr oe ''accuracy'' of None \<Rightarrow> Inr 0 | Some s \<Rightarrow> py_int_str s) of
             Inl e \<Rightarrow> Inl e
           | Inr a \<Rightarrow> Inr (Some \<lparr> os_name = get_attr oe ''name'', accuracy = a \<rparr>)))"

definition parse_host :: "xml \<Rightarrow> py_exn + host_data option" where
  \<comment> \<open>\<open>NmapScanner._parse_host\<close>; \<open>Inr None\<close> is the \<open>return None\<close> of a host without address\<close>
  "parse_host he =
     (case find_address he of
        None \<Rightarrow> Inr None
      | Some ae \<Rightarrow>
          (case for_collect parse_port (findall_desc ''port'' he) of
             Inl e \<Rightarrow> Inl e
           | Inr ps \<Rightarrow>
               (case parse_os he of
                  Inl e \<Rightarrow> Inl e
                | Inr oi \<Rightarrow>
                    Inr (Some \<lparr> ip = get_attr ae ''addr'',
                                hostname = (case find_user_hostname he of
                                              None \<Rightarrow> None
                                            | Some hn \<Rightarrow> get_attr hn ''name''),
                                ports = ps,
                                os = oi,
                                host_state = ''up'' \<rparr>))))"

definition parse_host_elem :: "xml \<Rightarrow> py_exn + host_data option" where
  \<comment> \<open>the body of \<open>for host_elem in root.findall(".//host")\<close>:
      \<open>host_elem.find("status").get("state")\<close> raises AttributeError without a status child\<close>
  "parse_host_elem he =
     (case find_child ''status'' he of
        None \<Rightarrow> Inl AttributeError
      | Some st \<Rightarrow>
          if get_attr st ''state'' \<noteq> Some ''up'' then Inr None
          else parse_host he)"

definition parse_root :: "xml \<Rightarrow> py_exn + host_data list" where
  \<comment> \<open>the \<open>try\<close> block of \<open>_parse_xml\<close> after \<open>ET.parse\<close> succeeded\<close>
  "parse_root doc = for_collect parse_host_elem (findall_desc ''host'' doc)"

text \<open>
  The structured-output file as the parser meets it: it does not exist, \<open>ET.parse\<close> raises
  on it (a parse error for a truncated or otherwise not well-formed file, or an error of
  the file system), or it parses to a tree.
\<close>

datatype xml_file = NoFile | Unparsable py_exn | Document xml

datatype log_line =
    ParseXmlWarning py_exn
  | PhaseBanner nat
  | NmapNotAvailable
  | NmapCompleted nat
  | NmapFailed py_exn
  | NiktoNotAvailable
  | NiktoCompleted nat
  | NiktoNoWebServices
  | NiktoFailed py_exn
  | ExtractedUnique nat
  | NoVulnsToEnrich
  | EnricherRunning string
  | EnricherFailed string py_exn
  | EnrichmentCompleted
  | AINotConfigured
  | AICompleted nat
  | AIFailed py_exn

definition parse_xml :: "xml_file \<Rightarrow> py_exn + (host_data list \<times> log_line list)" where
  \<comment> \<open>\<open>NmapScanner._parse_xml\<close>: the host list and the lines printed. The result type keeps
      the \<open>Inl\<close> side so that "does not raise" is a statement and not a convention.\<close>
  "parse_xml f =
     (case f of
        NoFile \<Rightarrow> Inr ([], [])
      | Unparsable e \<Rightarrow> Inr ([], [ParseXmlWarning e])
      | Document doc \<Rightarrow>
          (case parse_root doc of
             Inl e \<Rightarrow> Inr ([], [ParseXmlWarning e])
           | Inr hosts \<Rightarrow> Inr (hosts, [])))"


text \<open>
  The properties of the inventory are stated against the element tree with the following
  predicates: a host element is up when it has a status child whose state is \<open>up\<close>; a port
  record belongs to a port element when it carries its number, protocol and the state
  \<open>open\<close>; a host record belongs to a host element when its IP is the \<open>addr\<close> attribute of
  the element's address, its ports are the records of the element's open ports in document
  order, and its OS guess is absent without an OS match and otherwise names the first one.
\<close>

definition host_is_up :: "xml \<Rightarrow> bool" where
  "host_is_up he =
     (case find_child ''status'' he of
        None \<Rightarrow> False
      | Some st \<Rightarrow> get_attr st ''state'' = Some ''up'')"

definition port_record_of :: "xml \<Rightarrow> port_data \<Rightarrow> bool" where
  "port_record_of pe pd =
     (py_int_opt (get_attr pe ''portid'') = Inr (port pd)
      \<and> protocol pd = get_attr pe ''protocol''
      \<and> state pd = Some ''open'')"

definition host_record_of :: "xml \<Rightarrow> host_data \<Rightarrow> bool" where
  "host_record_of he h =
     ((\<exists>a. find_address he = Some a \<and> ip h = get_attr a ''addr'')
      \<and> list_all2 port_record_of (filter port_is_open (findall_desc ''port'' he)) (ports h)
      \<and> (case findall_desc ''osmatch'' he of
            [] \<Rightarrow> os h = None
          | oe # rest \<Rightarrow> map_option os_name (os h) = Some (get_attr oe ''name'')))"

definition inventory_of :: "xml \<Rightarrow> host_data list \<Rightarrow> bool" where
  "inventory_of doc hs =
     list_all2 host_record_of
       (filter (\<lambda>he. host_is_up he \<and> find_address he \<noteq> None) (findall_desc ''host'' doc)) hs"

text \<open>Sample reports used to evaluate the parser.\<close>

definition host_up_443 :: xml where
  "host_up_443 =
     Element ''host'' []
       [Element ''status'' [(''state'', ''up'')] [],
        Element ''address'' [(''addr'', ''192.168.1.1''), (''addrtype'', ''ipv4'')] [],
        Element ''ports'' []
          [Element ''port'' [(''protocol'', ''tcp''), (''portid'', ''443'')]
             [Element ''state'' [(''state'', ''open'')] [],
              Element ''service'' [(''name'', ''https'')] [],
              Element ''script''
                [(''id'', ''vulners''), (''output'', ''CVE-2021-44228 CVE-2022-1234'')] []],
           Element ''port'' [(''protocol'', ''tcp''), (''portid'', ''22'')]
             [Element ''state'' [(''state'', ''closed'')] []]],
        Element ''os'' []
          [Element ''osmatch'' [(''name'', ''Linux 5.x''), (''accuracy'', ''98'')] [],
           Element ''osmatch'' [(''name'', ''FreeBSD''), (''accuracy'', ''90'')] []]]"

definition host_down :: xml where
  "host_down =
     Element ''host'' []
       [Element ''status'' [(''state'', ''down'')] [],
        Element ''address'' [(''addr'', ''192.168.1.2''), (''addrtype'', ''ipv4'')] []]"

definition host_up_no_address :: xml where
  "host_up_no_address =
     Element ''host'' []
       [Element ''status'' [(''state'', ''up'')] [],
        Element ''address'' [(''addr'', ''00:11:22:33:44:55''), (''addrtype'', ''mac'')] []]"

definition host_up_no_addr_attribute :: xml where
  "host_up_no_addr_attribute =
     Element ''host'' []
       [Element ''status'' [(''state'', ''up'')] [],
        Element ''address'' [(''addrtype'', ''ipv4'')] []]"

definition host_no_status :: xml where
  "host_no_status =
     Element ''host'' []
       [Element ''address'' [(''addr'', ''192.168.1.3''), (''addrtype'', ''ipv4'')] []]"

definition record_up_443 :: host_data where
  "record_up_443 =
     \<lparr> ip = Some ''192.168.1.1'',
       hostname = None,
       ports =
         [\<lparr> port = 443, protocol = Some ''tcp'', state = Some ''open'',
            service = Some \<lparr> svc_name = ''https'', svc_product = None,
                             svc_version = None, svc_extrainfo = None \<rparr>,
            scripts = Some [\<lparr> script_id = Some ''vulners'',
                               script_output = Some ''CVE-2021-44228 CVE-2022-1234'' \<rparr>] \<rparr>],
       os = Some \<lparr> os_name = Some ''Linux 5.x'', accuracy = 98 \<rparr>,
       host_state = ''up'' \<rparr>"

definition report_three_hosts :: xml where
  "report_three_hosts = Element ''nmaprun'' [] [host_up_443, host_down, host_up_no_address]"

definition report_no_address :: xml where
  "report_no_address = Element ''nmaprun'' [] [host_up_no_address]"

definition report_no_addr_attribute :: xml where
  "report_no_addr_attribute = Element ''nmaprun'' [] [host_up_no_addr_attribute]"

definition report_no_status :: xml where
  "report_no_status = Element ''nmaprun'' [] [host_up_443, host_no_status]"


section \<open>Secondary scan: \<open>NiktoScanner\<close>\<close>

subsection \<open>Output parsing: \<open>_parse_nikto_output\<close>\<close>

text \<open>
  \<open>re.compile(r'\+\s+([^:]+):\s+(.+)').search(line)\<close> on one line of the output. The
  lines come from \<open>output.split('\n')\<close> and contain no newline, so \<open>.\<close> matches every
  character of a line. After a \<open>+\<close> the match needs whitespace, a non-empty group up to
  the next colon, the colon, whitespace and a non-empty rest; a group that would be empty
  takes the last character of the whitespace before it, as backtracking does. The search
  returns the leftmost match.
\<close>

definition match_after_colon :: "string \<Rightarrow> string option" where
  "match_after_colon r =
     (let ws = takeWhile py_isspace r; r3 = dropWhile py_isspace r in
      if ws = [] then None
      else if r3 \<noteq> [] then Some r3
      else if length ws \<ge> 2 then Some [last ws]
      else None)"

definition match_after_plus :: "string \<Rightarrow> (string \<times> string) option" where
  "match_after_plus r =
     (let ws = takeWhile py_isspace r; r1 = dropWhile py_isspace r;
          g1 = takeWhile (\<lambda>c. c \<noteq> CHR '':'') r1; r2 = dropWhile (\<lambda>c. c \<noteq> CHR '':'') r1
      in if ws = [] then None
         else if r2 = [] then None
         else if g1 = [] \<and> length ws < 2 then None
         else (case match_after_colon (tl r2) of
                 None \<Rightarrow> None
               | Some g2 \<Rightarrow> Some (if g1 = [] then [last ws] else g1, g2)))"

fun vuln_pattern_search :: "string \<Rightarrow> (string \<times> string) option" where
  "vuln_pattern_search [] = None"
| "vuln_pattern_search (c # cs) =
     (if c = CHR ''+'' then
        (case match_after_plus cs of
           Some m \<Rightarrow> Some m
         | None \<Rightarrow> vuln_pattern_search cs)
      else vuln_pattern_search cs)"

record finding =
  f_type :: string
  f_description :: string
  f_severity :: string

definition assess_severity :: "string \<Rightarrow> string" where
  "assess_severity description =
     (let d = py_lower description in
      if list_ex (\<lambda>k. str_contains k d) [''critical'', ''dangerous'', ''exploit''] then ''high''
      else if list_ex (\<lambda>k. str_contains k d) [''vulnerable'', ''security'', ''risk''] then ''medium''
      else if list_ex (\<lambda>k. str_contains k d) [''warning'', ''outdated''] then ''low''
      else ''info'')"

definition parse_nikto_line :: "string \<Rightarrow> finding list" where
  "parse_nikto_line line =
     (case vuln_pattern_search line of
        None \<Rightarrow> []
      | Some (g1, g2) \<Rightarrow>
          [\<lparr> f_type = py_strip g1, f_description = py_strip g2,
             f_severity = assess_severity (py_strip g2) \<rparr>])"

definition parse_nikto_output :: "string \<Rightarrow> finding list" where
  \<comment> \<open>\<open>NiktoScanner._parse_nikto_output\<close>\<close>
  "parse_nikto_output output = concat (map parse_nikto_line (py_split (CHR 0x0A) output))"

subsection \<open>One worker: \<open>_scan_single\<close>\<close>

text \<open>
  A web target as \<open>_extract_web_targets\<close> builds it; the host is the \<open>ip\<close> of a host
  record and can be \<open>None\<close>. The \<open>try\<close> block of a worker spawns the external process, waits
  for it, parses its output, writes the JSON file and reports progress; what the
  environment decides is whether one of these steps raises, and otherwise what the process
  wrote to its standard output. The process is taken to end.
\<close>

record web_target =
  t_host :: "string option"
  t_port :: string
  t_scheme :: string
  t_url :: string

datatype try_outcome = Raised py_exn | Completed string

record scan_result =
  sr_target :: web_target
  sr_findings :: "finding list"
  sr_error :: "py_exn option"
  sr_output_files :: "(string \<times> string) option"

definition py_str_opt :: "string option \<Rightarrow> string" where
  \<comment> \<open>\<open>f"{x}"\<close> for a string or \<open>None\<close>\<close>
  "py_str_opt x = (case x of None \<Rightarrow> ''None'' | Some s \<Rightarrow> s)"

definition scan_single :: "web_target \<Rightarrow> try_outcome \<Rightarrow> py_exn + scan_result" where
  \<comment> \<open>\<open>NiktoScanner._scan_single\<close> once the semaphore is held. The output files are named
      relative to the output directory. \<open>except Exception\<close> turns every exception of the
      \<open>try\<close> block into a result with an \<open>error\<close> entry, so no branch is \<open>Inl\<close>.\<close>
  "scan_single target outcome =
     (case outcome of
        Completed stdout \<Rightarrow>
          Inr \<lparr> sr_target = target,
                sr_findings = parse_nikto_output stdout,
                sr_error = None,
                sr_output_files =
                  Some (py_str_opt (t_host target) @ ''_'' @ t_port target @ ''.html'',
                        py_str_opt (t_host target) @ ''_'' @ t_port target @ ''.json'') \<rparr>
      | Raised e \<Rightarrow>
          Inr \<lparr> sr_target = target, sr_findings = [], sr_error = Some e,
                sr_output_files = None \<rparr>)"

subsection \<open>The fan-out: \<open>scan\<close>\<close>

record scan_summary =
  scans :: "scan_result list"
  total :: nat
  successful :: nat
  failed :: nat

definition gather_successful :: "(py_exn + 'a) list \<Rightarrow> 'a list" where
  \<comment> \<open>\<open>[r for r in scan_results if not isinstance(r, Exception)]\<close>\<close>
  "gather_successful rs = concat (map (\<lambda>r. case r of Inl e \<Rightarrow> [] | Inr x \<Rightarrow> [x]) rs)"

definition gather_failed :: "(py_exn + 'a) list \<Rightarrow> py_exn list" where
  \<comment> \<open>\<open>[r for r in scan_results if isinstance(r, Exception)]\<close>\<close>
  "gather_failed rs = concat (map (\<lambda>r. case r of Inl e \<Rightarrow> [e] | Inr x \<Rightarrow> []) rs)"

definition scan :: "int \<Rightarrow> (web_target \<times> try_outcome) list \<Rightarrow> (py_exn + scan_summary) option" where
  \<comment> \<open>\<open>NiktoScanner.scan\<close> with \<open>self.concurrency = concurrency\<close>; each target comes with the
      outcome of its worker's \<open>try\<close> block. \<open>asyncio.Semaphore\<close> raises ValueError for a
      negative value. With the value 0 no worker ever enters its block and \<open>gather\<close> never
      returns: that is the result \<open>None\<close>. \<open>gather\<close> returns the results in the order of
      the targets.\<close>
  "scan concurrency work =
     (if concurrency < 0 then Some (Inl ValueError)
      else if concurrency = 0 \<and> work \<noteq> [] then None
      else
        (let scan_results = map (\<lambda>(t, outcome). scan_single t outcome) work;
             successful_scans = gather_successful scan_results;
             failed_scans = gather_failed scan_results
         in Some (Inr \<lparr> scans = successful_scans,
                         total = length work,
                         successful = length successful_scans,
                         failed = length failed_scans \<rparr>)))"

subsection \<open>Scheduling of the fan-out\<close>

text \<open>
  The workers of \<open>scan\<close> as a transition system. A worker waits at \<open>async with sem\<close>, then
  holds the semaphore and prepares the command, then has a running child process (from
  \<open>create_subprocess_exec\<close> until \<open>communicate\<close> returns), then post-processes the output
  while still holding the semaphore, and is finished when it leaves the \<open>async with\<close>
  block, which releases the semaphore. A step is taken by one worker at a time, as the
  event loop runs one task between two suspension points. A worker leaves the block only
  after its child process has ended, since \<open>communicate\<close> returns at that point; the
  cancellation of a worker whose child is still running is outside the model.
\<close>

datatype worker = Waiting | Holding | Running | Exited | Finished

datatype action =
    Acquire nat    \<comment> \<open>the worker enters \<open>async with sem\<close>; possible only when the value is positive\<close>
  | Spawn nat      \<comment> \<open>\<open>create_subprocess_exec\<close> returns a process\<close>
  | SpawnFails nat \<comment> \<open>\<open>create_subprocess_exec\<close> raises; the handler returns, the block is left\<close>
  | ProcessExit nat \<comment> \<open>\<open>communicate\<close> returns\<close>
  | Leave nat      \<comment> \<open>the worker returns from inside the block; the semaphore is released\<close>

record fan_state =
  sem_value :: nat
  workers :: "worker list"

definition fan_init :: "int \<Rightarrow> nat \<Rightarrow> py_exn + fan_state" where
  \<comment> \<open>\<open>sem = asyncio.Semaphore(self.concurrency)\<close> and one task per target\<close>
  "fan_init concurrency n =
     (if concurrency < 0 then Inl ValueError
      else Inr \<lparr> sem_value = nat concurrency, workers = replicate n Waiting \<rparr>)"

definition move :: "nat \<Rightarrow> worker \<Rightarrow> worker \<Rightarrow> fan_state \<Rightarrow> fan_state option" where
  "move i from to s =
     (if i < length (workers s) \<and> workers s ! i = from
      then Some (s\<lparr> workers := (workers s)[i := to] \<rparr>)
      else None)"

fun fan_step :: "action \<Rightarrow> fan_state \<Rightarrow> fan_state option" where
  "fan_step (Acquire i) s =
     (if sem_value s > 0
      then move i Waiting Holding (s\<lparr> sem_value := sem_value s - 1 \<rparr>)
      else None)"
| "fan_step (Spawn i) s = move i Holding Running s"
| "fan_step (SpawnFails i) s = move i Holding Finished (s\<lparr> sem_value := sem_value s + 1 \<rparr>)"
| "fan_step (ProcessExit i) s = move i Running Exited s"
| "fan_step (Leave i) s = move i Exited Finished (s\<lparr> sem_value := sem_value s + 1 \<rparr>)"

fun fan_run :: "action list \<Rightarrow> fan_state \<Rightarrow> fan_state option" where
  "fan_run [] s = Some s"
| "fan_run (a # as) s = (case fan_step a s of None \<Rightarrow> None | Some s' \<Rightarrow> fan_run as s')"

definition running_children :: "fan_state \<Rightarrow> nat" where
  "running_children s = length (filter (\<lambda>w. w = Running) (workers s))"

fun holds_semaphore :: "worker \<Rightarrow> bool" where
  "holds_semaphore Waiting = False"
| "holds_semaphore Holding = True"
| "holds_semaphore Running = True"
| "holds_semaphore Exited = True"
| "holds_semaphore Finished = False"

definition holders :: "worker list \<Rightarrow> nat" where
  "holders ws = length (filter holds_semaphore ws)"

definition fan_inv :: "nat \<Rightarrow> fan_state \<Rightarrow> bool" where
  \<comment> \<open>the free slots and the workers inside the block add up to the initial value\<close>
  "fan_inv cap s = (sem_value s + holders (workers s) = cap)"


text \<open>Two sample targets for evaluating the fan-out.\<close>

definition target_a :: web_target where
  "target_a = \<lparr> t_host = Some ''10.0.0.5'', t_port = ''80'', t_scheme = ''http'',
                 t_url = ''http://10.0.0.5:80'' \<rparr>"

definition target_b :: web_target where
  "target_b = \<lparr> t_host = Some ''10.0.0.6'', t_port = ''443'', t_scheme = ''https'',
                 t_url = ''https://10.0.0.6:443'' \<rparr>"


section \<open>Vulnerability extraction: \<open>ScannerManager._extract_vulnerabilities\<close>\<close>

text \<open>
  A vulnerability dictionary. Extraction sets the first five keys (and the description for
  findings of the secondary scan); enrichment and scoring add the others later. The port
  is an integer when it comes from the structured report and a string when it comes from a
  web target.
\<close>

datatype port_value = PortInt int | PortStr string

record vuln =
  v_cve_id :: "string pyval"
  v_host :: "string pyval"
  v_port :: "port_value pyval"
  v_service :: "string pyval"
  v_source :: "string pyval"
  v_description :: "string pyval"
  v_cvss_score :: "real pyval"
  v_risk_level :: "string pyval"

definition opt_entry :: "'a option \<Rightarrow> 'a pyval" where
  \<comment> \<open>a key that is set to a value which may be \<open>None\<close>\<close>
  "opt_entry x = (case x of None \<Rightarrow> PyNone | Some y \<Rightarrow> Val y)"

text \<open>
  \<open>re.findall(r"CVE-\d{4}-\d+", text)\<close>: the non-overlapping matches from left to right.
  A match is \<open>CVE-\<close>, exactly four digits, a hyphen and the longest run of digits, which
  must not be empty. The counter skips the characters of a match just found.
\<close>

definition cve_match_at :: "string \<Rightarrow> string option" where
  "cve_match_at s =
     (if starts_with ''CVE-'' s then
        (let year = take 4 (drop 4 s); r = drop 8 s; num = takeWhile py_isdigit (drop 1 r) in
         if length year = 4 \<and> list_all py_isdigit year \<and> starts_with ''-'' r \<and> num \<noteq> []
         then Some (''CVE-'' @ year @ ''-'' @ num)
         else None)
      else None)"

fun cve_scan :: "nat \<Rightarrow> string \<Rightarrow> string list" where
  "cve_scan k [] = []"
| "cve_scan k (c # cs) =
     (if k > 0 then cve_scan (k - 1) cs
      else (case cve_match_at (c # cs) of
              None \<Rightarrow> cve_scan 0 cs
            | Some m \<Rightarrow> m # cve_scan (length m - 1) cs))"

definition cve_findall :: "string \<Rightarrow> string list" where
  "cve_findall s = cve_scan 0 s"

fun for_concat :: "('a \<Rightarrow> py_exn + 'b list) \<Rightarrow> 'a list \<Rightarrow> py_exn + 'b list" where
  \<comment> \<open>a \<open>for\<close> loop whose body raises or appends some records\<close>
  "for_concat f [] = Inr []"
| "for_concat f (x # xs) =
     (case f x of
        Inl e \<Rightarrow> Inl e
      | Inr ys \<Rightarrow> (case for_concat f xs of Inl e \<Rightarrow> Inl e | Inr zs \<Rightarrow> Inr (ys @ zs)))"

definition service_name :: "port_data \<Rightarrow> string" where
  \<comment> \<open>\<open>port.get("service", {}).get("name", "")\<close>\<close>
  "service_name p = (case service p of None \<Rightarrow> [] | Some sv \<Rightarrow> svc_name sv)"

definition script_vulns :: "host_data \<Rightarrow> port_data \<Rightarrow> script_info \<Rightarrow> py_exn + vuln list" where
  \<comment> \<open>the body of \<open>for script in port.get("scripts", [])\<close>. The script dictionary always has
      the keys \<open>id\<close> and \<open>output\<close>; \<open>None.lower()\<close> raises AttributeError and
      \<open>re.findall(pattern, None)\<close> raises TypeError.\<close>
  "script_vulns h p sc =
     (case script_id sc of
        None \<Rightarrow> Inl AttributeError
      | Some i \<Rightarrow>
          if str_contains ''cve'' (py_lower i) \<or> str_contains ''vuln'' (py_lower i) then
            (case script_output sc of
               None \<Rightarrow> Inl TypeError
             | Some out \<Rightarrow>
                 Inr (map (\<lambda>cve. \<lparr> v_cve_id = Val cve,
                                    v_host = opt_entry (ip h),
                                    v_port = Val (PortInt (port p)),
                                    v_service = Val (service_name p),
                                    v_source = Val ''nmap_script'',
                                    v_description = Absent,
                                    v_cvss_score = Absent,
                                    v_risk_level = Absent \<rparr>)
                        (cve_findall out)))
          else Inr [])"

definition port_vulns :: "host_data \<Rightarrow> port_data \<Rightarrow> py_exn + vuln list" where
  "port_vulns h p =
     for_concat (script_vulns h p) (case scripts p of None \<Rightarrow> [] | Some scs \<Rightarrow> scs)"

definition host_vulns :: "host_data \<Rightarrow> py_exn + vuln list" where
  "host_vulns h = for_concat (port_vulns h) (ports h)"

definition finding_vulns :: "scan_result \<Rightarrow> finding \<Rightarrow> vuln list" where
  \<comment> \<open>the body of \<open>for finding in scan.get("findings", [])\<close>\<close>
  "finding_vulns sr fd =
     map (\<lambda>cve. \<lparr> v_cve_id = Val cve,
                   v_host = opt_entry (t_host (sr_target sr)),
                   v_port = Val (PortStr (t_port (sr_target sr))),
                   v_service = Val ''http'',
                   v_source = Val ''nikto'',
                   v_description = Val (take 200 (f_description fd)),
                   v_cvss_score = Absent,
                   v_risk_level = Absent \<rparr>)
       (cve_findall (f_description fd))"

definition nikto_vulns :: "scan_result list \<Rightarrow> vuln list" where
  "nikto_vulns nikto_scans =
     concat (map (\<lambda>sr. concat (map (finding_vulns sr) (sr_findings sr))) nikto_scans)"

type_synonym vuln_key = "string option \<times> string option"

definition vuln_key :: "vuln \<Rightarrow> vuln_key" where
  \<comment> \<open>\<open>key = (vuln.get("cve_id"), vuln.get("host"))\<close>\<close>
  "vuln_key v = (dict_get (v_cve_id v), dict_get (v_host v))"

definition dedup_step :: "vuln_key set \<times> vuln list \<Rightarrow> vuln \<Rightarrow> vuln_key set \<times> vuln list" where
  \<comment> \<open>one round of \<open>for vuln in vulnerabilities\<close> on the pair \<open>(seen, unique_vulns)\<close>\<close>
  "dedup_step st v =
     (case st of (seen, unique_vulns) \<Rightarrow>
        if vuln_key v \<notin> seen then (insert (vuln_key v) seen, unique_vulns @ [v])
        else (seen, unique_vulns))"

definition deduplicate :: "vuln list \<Rightarrow> vuln list" where
  \<comment> \<open>the deduplication loop, started with \<open>seen = set()\<close> and \<open>unique_vulns = []\<close>\<close>
  "deduplicate vulnerabilities = snd (foldl dedup_step ({}, []) vulnerabilities)"

definition extract_vulnerabilities ::
  "host_data list \<Rightarrow> scan_result list \<Rightarrow> py_exn + vuln list" where
  \<comment> \<open>the arguments are \<open>context["nmap_results"]["hosts"]\<close> and
      \<open>context["nikto_results"]["scans"]\<close>, each \<open>[]\<close> when the key is not there\<close>
  "extract_vulnerabilities hosts nikto_scans =
     (case for_concat host_vulns hosts of
        Inl e \<Rightarrow> Inl e
      | Inr vs \<Rightarrow> Inr (deduplicate (vs @ nikto_vulns nikto_scans)))"

text \<open>The deduplication loop as a recursion over the list, for a given set of seen keys.\<close>

fun dedup_from :: "vuln_key set \<Rightarrow> vuln list \<Rightarrow> vuln list" where
  "dedup_from seen [] = []"
| "dedup_from seen (v # vs) =
     (if vuln_key v \<in> seen then dedup_from seen vs
      else v # dedup_from (insert (vuln_key v) seen) vs)"

section \<open>Correlation: \<open>AIEngine.correlate_vulnerabilities\<close>\<close>

record chain =
  c_type :: string
  c_description :: string
  c_vulnerabilities :: "string option list"
  c_risk :: string

record high_risk_host =
  hr_host :: "string option"
  critical_vulns :: nat
  high_vulns :: nat
  total_vulns :: nat
  risk_assessment :: string

record correlation =
  attack_chains :: "chain list"
  high_risk_hosts :: "high_risk_host list"

definition lower_description :: "vuln \<Rightarrow> py_exn + string" where
  \<comment> \<open>\<open>v.get("description", "").lower()\<close>; a description that is \<open>None\<close> has no \<open>lower\<close>\<close>
  "lower_description v =
     (case dict_get_default (v_description v) [] of
        None \<Rightarrow> Inl AttributeError
      | Some d \<Rightarrow> Inr (py_lower d))"

definition is_rce :: "vuln \<Rightarrow> py_exn + bool" where
  \<comment> \<open>\<open>"remote" in v.get("description", "").lower() or v.get("cvss_score", 0) >= 9.0\<close>;
      the score is only looked at when the description does not match, and comparing
      \<open>None\<close> with a number raises TypeError\<close>
  "is_rce v =
     (case lower_description v of
        Inl e \<Rightarrow> Inl e
      | Inr d \<Rightarrow>
          if str_contains ''remote'' d then Inr True
          else (case dict_get_default (v_cvss_score v) 0 of
                  None \<Rightarrow> Inl TypeError
                | Some x \<Rightarrow> Inr (x \<ge> 9)))"

definition is_privesc :: "vuln \<Rightarrow> py_exn + bool" where
  \<comment> \<open>\<open>"privilege" in v.get("description", "").lower()\<close>\<close>
  "is_privesc v =
     (case lower_description v of
        Inl e \<Rightarrow> Inl e
      | Inr d \<Rightarrow> Inr (str_contains ''privilege'' d))"

definition comprehension :: "('a \<Rightarrow> py_exn + bool) \<Rightarrow> 'a list \<Rightarrow> py_exn + 'a list" where
  \<comment> \<open>\<open>[v for v in vulns if cond(v)]\<close> with a condition that can raise\<close>
  "comprehension cond xs =
     for_collect (\<lambda>x. case cond x of Inl e \<Rightarrow> Inl e
                                     | Inr b \<Rightarrow> Inr (if b then Some x else None)) xs"

definition rce_to_privesc :: "vuln \<Rightarrow> vuln \<Rightarrow> chain" where
  "rce_to_privesc r p =
     \<lparr> c_type = ''rce_to_privesc'',
       c_description = ''Remote Code Execution can be chained with Privilege Escalation'',
       c_vulnerabilities = [dict_get (v_cve_id r), dict_get (v_cve_id p)],
       c_risk = ''critical'' \<rparr>"

definition identify_attack_chains :: "vuln list \<Rightarrow> py_exn + chain list" where
  \<comment> \<open>\<open>AIEngine._identify_attack_chains\<close>\<close>
  "identify_attack_chains vulns =
     (case comprehension is_rce vulns of
        Inl e \<Rightarrow> Inl e
      | Inr rce_vulns \<Rightarrow>
          (case comprehension is_privesc vulns of
             Inl e \<Rightarrow> Inl e
           | Inr privesc_vulns \<Rightarrow>
               (case (rce_vulns, privesc_vulns) of
                  (r # rs, p # ps) \<Rightarrow> Inr [rce_to_privesc r p]
                | _ \<Rightarrow> Inr [])))"

definition host_of :: "vuln \<Rightarrow> string option" where
  \<comment> \<open>\<open>vuln.get("host", "unknown")\<close>\<close>
  "host_of v = dict_get_default (v_host v) ''unknown''"

definition by_host_step ::
  "(string option \<times> vuln list) list \<Rightarrow> vuln \<Rightarrow> (string option \<times> vuln list) list" where
  \<comment> \<open>one round of the grouping loop; the dictionary keeps its keys in insertion order\<close>
  "by_host_step by_host v =
     (if host_of v \<notin> set (map fst by_host)
      then by_host @ [(host_of v, [v])]
      else map (\<lambda>(h, vs). if h = host_of v then (h, vs @ [v]) else (h, vs)) by_host)"

definition group_by_host :: "vuln list \<Rightarrow> (string option \<times> vuln list) list" where
  "group_by_host vulnerabilities = foldl by_host_step [] vulnerabilities"

definition host_chains :: "vuln list \<Rightarrow> py_exn + chain list" where
  \<comment> \<open>the body of \<open>for host, host_vulns in by_host.items()\<close>\<close>
  "host_chains vulns_of_host =
     (if length vulns_of_host \<ge> 2 then identify_attack_chains vulns_of_host else Inr [])"

definition has_risk_level :: "string \<Rightarrow> vuln \<Rightarrow> bool" where
  \<comment> \<open>\<open>v.get("risk_level") == level\<close>\<close>
  "has_risk_level level v = (dict_get (v_risk_level v) = Some level)"

definition identify_high_risk_hosts ::
  "(string option \<times> vuln list) list \<Rightarrow> high_risk_host list" where
  \<comment> \<open>\<open>AIEngine._identify_high_risk_hosts\<close>\<close>
  "identify_high_risk_hosts by_host =
     concat (map (\<lambda>(h, vulns).
        (let critical_count = length (filter (has_risk_level ''critical'') vulns);
             high_count = length (filter (has_risk_level ''high'') vulns)
         in if critical_count \<ge> 2 \<or> (critical_count \<ge> 1 \<and> high_count \<ge> 2)
            then [\<lparr> hr_host = h, critical_vulns = critical_count, high_vulns = high_count,
                    total_vulns = length vulns,
                    risk_assessment =
                      ''Multiple critical vulnerabilities create high risk of compromise'' \<rparr>]
            else [])) by_host)"

definition correlate_vulnerabilities :: "vuln list \<Rightarrow> py_exn + correlation" where
  \<comment> \<open>\<open>AIEngine.correlate_vulnerabilities\<close>\<close>
  "correlate_vulnerabilities vulnerabilities =
     (let by_host = group_by_host vulnerabilities in
      case for_concat host_chains (map snd by_host) of
        Inl e \<Rightarrow> Inl e
      | Inr found \<Rightarrow>
          Inr \<lparr> attack_chains = found,
                high_risk_hosts = identify_high_risk_hosts by_host \<rparr>)"

text \<open>
  The indicators of the specification, as total predicates on a vulnerability: the
  description (empty when there is none) contains the word in any letter case, and the
  CVSS score (0 when there is none) is at least 9.
\<close>

definition description_text :: "vuln \<Rightarrow> string" where
  "description_text v = (case v_description v of Val d \<Rightarrow> d | _ \<Rightarrow> [])"

definition cvss_value :: "vuln \<Rightarrow> real" where
  "cvss_value v = (case v_cvss_score v of Val x \<Rightarrow> x | _ \<Rightarrow> 0)"

definition remote_indicator :: "vuln \<Rightarrow> bool" where
  "remote_indicator v =
     (str_contains ''remote'' (py_lower (description_text v)) \<or> cvss_value v \<ge> 9)"

definition privilege_indicator :: "vuln \<Rightarrow> bool" where
  "privilege_indicator v = str_contains ''privilege'' (py_lower (description_text v))"

definition expected_chains :: "vuln list \<Rightarrow> chain list" where
  \<comment> \<open>one chain of the first match of each indicator, for a host with at least two
      vulnerabilities among which both indicators occur; no chain otherwise\<close>
  "expected_chains g =
     (case (List.find remote_indicator g, List.find privilege_indicator g) of
        (Some r, Some p) \<Rightarrow> if length g \<ge> 2 then [rce_to_privesc r p] else []
      | _ \<Rightarrow> [])"

text \<open>Sample vulnerabilities for evaluating the correlation.\<close>

definition sample_vuln :: "string \<Rightarrow> string \<Rightarrow> string \<Rightarrow> vuln" where
  "sample_vuln cve h d =
     \<lparr> v_cve_id = Val cve, v_host = Val h, v_port = Val (PortInt 443),
       v_service = Val ''https'', v_source = Val ''nmap_script'', v_description = Val d,
       v_cvss_score = Val 5, v_risk_level = Val ''medium'' \<rparr>"

definition vuln_both :: vuln where
  "vuln_both = sample_vuln ''CVE-2021-0001'' ''10.0.0.5'' ''remote privilege escalation''"

definition vuln_remote_upper :: vuln where
  "vuln_remote_upper = sample_vuln ''CVE-2021-0002'' ''10.0.0.6'' ''Remote code execution''"

definition vuln_privilege_upper :: vuln where
  "vuln_privilege_upper = sample_vuln ''CVE-2021-0003'' ''10.0.0.6'' ''Privilege escalation''"

text \<open>
  The grouping invariant: the keys are distinct, they are the hosts of the vulnerabilities
  read so far, and each key holds those vulnerabilities of its host, in their order.
\<close>

definition grouped :: "(string option \<times> vuln list) list \<Rightarrow> vuln list \<Rightarrow> bool" where
  "grouped m vs =
     (distinct (map fst m) \<and> set (map fst m) = host_of ` set vs
      \<and> (\<forall>(h, g) \<in> set m. g = filter (\<lambda>v. host_of v = h) vs))"

definition sample_vulns :: "vuln list" where
  "sample_vulns = [vuln_remote_upper, vuln_both, vuln_privilege_upper]"

definition sample_correlation :: correlation where
  "sample_correlation =
     \<lparr> attack_chains = [rce_to_privesc vuln_remote_upper vuln_privilege_upper],
       high_risk_hosts = [] \<rparr>"

section \<open>Scoring\<close>

text \<open>
  Modelled from the spec: the module \<open>nmapai/core/vulnerability_engine.py\<close> (class
  \<open>VulnerabilityEngine\<close>, which computes \<open>priority_score\<close> and \<open>risk_level\<close>) is imported by
  the sources but is not among them. The score and the risk buckets below follow the
  specification's formula word by word, over the real numbers; a factor that is missing
  is \<open>None\<close>. The default weights are those of \<open>ConfigManager\<close> in
  \<open>nmapai/utils/config_manager.py\<close>, which is among the sources.
\<close>

record scoring_weights =
  w_cvss :: real
  w_epss :: real
  w_exploit_available :: real
  w_service_exposure :: real
  w_age :: real

definition default_scoring_weights :: scoring_weights where
  \<comment> \<open>\<open>"scoring_weights"\<close> of the default configuration\<close>
  "default_scoring_weights =
     \<lparr> w_cvss = 35 / 100, w_epss = 25 / 100, w_exploit_available = 20 / 100,
       w_service_exposure = 10 / 100, w_age = 10 / 100 \<rparr>"

record factors =
  cvss :: "real option"
  epss :: "real option"
  exploitAvailable :: "real option"
  serviceExposure :: "real option"
  ageFactor :: "real option"

datatype risk_level = Critical | High | Medium | Low

definition contribution :: "real option \<Rightarrow> real" where
  \<comment> \<open>Modelled from the spec: "any missing factor contributes 0"\<close>
  "contribution x = (case x of None \<Rightarrow> 0 | Some r \<Rightarrow> r)"

definition clip :: "real \<Rightarrow> real \<Rightarrow> real \<Rightarrow> real" where
  \<comment> \<open>Modelled from the spec: \<open>clip(x, lo, hi)\<close>\<close>
  "clip x lo hi = max lo (min hi x)"

definition priorityScore :: "scoring_weights \<Rightarrow> factors \<Rightarrow> real" where
  \<comment> \<open>Modelled from the spec: the scoring formula of the missing \<open>VulnerabilityEngine\<close>\<close>
  "priorityScore w f =
     100 * clip (w_cvss w * (contribution (cvss f) / 10)
                 + w_epss w * contribution (epss f)
                 + w_exploit_available w * contribution (exploitAvailable f)
                 + w_service_exposure w * contribution (serviceExposure f)
                 + w_age w * contribution (ageFactor f)) 0 1"

definition riskLevel :: "real \<Rightarrow> risk_level" where
  \<comment> \<open>Modelled from the spec: the risk buckets of the missing \<open>VulnerabilityEngine\<close>\<close>
  "riskLevel score =
     (if score \<ge> 90 then Critical
      else if score \<ge> 70 then High
      else if score \<ge> 40 then Medium
      else Low)"


section \<open>Orchestration: \<open>ScannerManager.run_scan\<close>\<close>

text \<open>
  The context dictionary of a run, with the entries the phases read and write (the output
  directory, the scan parameters and the timestamps are left out). An empty dictionary of
  Nmap results is \<open>None\<close>: it has no \<open>hosts\<close> entry. The type of a recommendation belongs
  to the missing \<open>VulnerabilityEngine\<close> and stays a parameter.
\<close>

datatype nikto_results = NiktoEmpty | NiktoSkipped | NiktoSummary scan_summary

record 'r scan_context =
  ctx_targets :: "string list"
  ctx_nmap_results :: "host_data list option"
  ctx_nikto_results :: nikto_results
  ctx_vulnerabilities :: "vuln list"
  ctx_scored_vulnerabilities :: "vuln list"
  ctx_recommendations :: "'r list"
  ctx_ai_analysis :: "string option"

text \<open>
  What the manager finds in its plugin list, and what each plugin's \<open>execute\<close> does when
  awaited: it raises or returns its result dictionary. \<open>None\<close> stands for a plugin that is
  not in the list. An enricher comes with its name; its result may lack the
  \<open>vulnerabilities\<close> entry. The two methods of the missing \<open>VulnerabilityEngine\<close> are
  parameters as well; each is called once in a run, so what it reads from the context
  besides the vulnerability list is part of the choice of the parameter.
\<close>

record 'r plugins =
  nmap_plugin :: "(py_exn + host_data list option) option"
  nikto_plugin :: "(host_data list option \<Rightarrow> py_exn + nikto_results) option"
  enricher_plugins :: "(string \<times> (vuln list \<Rightarrow> py_exn + vuln list option)) list"
  analyze_vulnerabilities :: "vuln list \<Rightarrow> py_exn + vuln list"
  generate_recommendations :: "vuln list \<Rightarrow> py_exn + 'r list"
  ai_plugin :: "('r scan_context \<Rightarrow> py_exn + string) option"

definition hosts_of :: "host_data list option \<Rightarrow> host_data list" where
  \<comment> \<open>\<open>results.get("hosts", [])\<close>\<close>
  "hosts_of res = (case res of None \<Rightarrow> [] | Some hs \<Rightarrow> hs)"

definition scans_of :: "nikto_results \<Rightarrow> scan_result list" where
  \<comment> \<open>\<open>results.get("scans", [])\<close>\<close>
  "scans_of res = (case res of NiktoSummary s \<Rightarrow> scans s | _ \<Rightarrow> [])"

definition run_nmap :: "'r plugins \<Rightarrow> host_data list option \<times> log_line list" where
  \<comment> \<open>\<open>ScannerManager._run_nmap\<close>: the results and the lines printed\<close>
  "run_nmap env =
     (case nmap_plugin env of
        None \<Rightarrow> (None, [PhaseBanner 1, NmapNotAvailable])
      | Some (Inr results) \<Rightarrow>
          (results, [PhaseBanner 1, NmapCompleted (length (hosts_of results))])
      | Some (Inl e) \<Rightarrow> (None, [PhaseBanner 1, NmapFailed e]))"

definition run_nikto ::
  "'r plugins \<Rightarrow> host_data list option \<Rightarrow> nikto_results \<times> log_line list" where
  \<comment> \<open>\<open>ScannerManager._run_nikto\<close>\<close>
  "run_nikto env nmap_res =
     (case nikto_plugin env of
        None \<Rightarrow> (NiktoEmpty, [PhaseBanner 2, NiktoNotAvailable])
      | Some exec \<Rightarrow>
          (case exec nmap_res of
             Inr results \<Rightarrow>
               (results,
                [PhaseBanner 2,
                 (case results of
                    NiktoSummary s \<Rightarrow>
                      if scans s \<noteq> [] then NiktoCompleted (total s) else NiktoNoWebServices
                  | _ \<Rightarrow> NiktoNoWebServices)])
           | Inl e \<Rightarrow> (NiktoEmpty, [PhaseBanner 2, NiktoFailed e])))"

fun run_enrichers ::
  "(string \<times> (vuln list \<Rightarrow> py_exn + vuln list option)) list \<Rightarrow> vuln list
     \<Rightarrow> vuln list \<times> log_line list" where
  \<comment> \<open>the loop \<open>for plugin in self.plugins\<close> over the plugins named \<open>*_enricher\<close>\<close>
  "run_enrichers [] vs = (vs, [])"
| "run_enrichers ((name, exec) # rest) vs =
     (case exec vs of
        Inr result \<Rightarrow>
          (case run_enrichers rest (case result of None \<Rightarrow> vs | Some vs' \<Rightarrow> vs') of
             (out, lg) \<Rightarrow> (out, EnricherRunning name # lg))
      | Inl e \<Rightarrow>
          (case run_enrichers rest vs of
             (out, lg) \<Rightarrow> (out, EnricherRunning name # EnricherFailed name e # lg)))"

definition enrich_vulnerabilities :: "'r plugins \<Rightarrow> vuln list \<Rightarrow> vuln list \<times> log_line list" where
  \<comment> \<open>\<open>ScannerManager._enrich_vulnerabilities\<close>\<close>
  "enrich_vulnerabilities env vs =
     (if vs = [] then ([], [PhaseBanner 4, NoVulnsToEnrich])
      else (case run_enrichers (enricher_plugins env) vs of
              (out, lg) \<Rightarrow> (out, PhaseBanner 4 # lg @ [EnrichmentCompleted])))"

definition run_ai_analysis :: "'r plugins \<Rightarrow> 'r scan_context \<Rightarrow> string option \<times> log_line list" where
  \<comment> \<open>\<open>ScannerManager._run_ai_analysis\<close>\<close>
  "run_ai_analysis env ctx =
     (case ai_plugin env of
        None \<Rightarrow> (None, [PhaseBanner 7, AINotConfigured])
      | Some exec \<Rightarrow>
          (case exec ctx of
             Inr analysis \<Rightarrow> (Some analysis, [PhaseBanner 7, AICompleted (length analysis)])
           | Inl e \<Rightarrow> (None, [PhaseBanner 7, AIFailed e])))"

definition run_scan :: "'r plugins \<Rightarrow> string list \<Rightarrow> (py_exn + 'r scan_context) \<times> log_line list" where
  \<comment> \<open>\<open>ScannerManager.run_scan\<close>: the context returned, or the exception that leaves the
      method, and the lines printed by the phases. Phases 3, 5 and 6 have no handler.\<close>
  "run_scan env tgts =
     (case run_nmap env of (nmap_res, lg1) \<Rightarrow>
      case run_nikto env nmap_res of (nikto_res, lg2) \<Rightarrow>
      case extract_vulnerabilities (hosts_of nmap_res) (scans_of nikto_res) of
        Inl e \<Rightarrow> (Inl e, lg1 @ lg2 @ [PhaseBanner 3])
      | Inr vs \<Rightarrow>
          (let lg3 = [PhaseBanner 3, ExtractedUnique (length vs)] in
           case enrich_vulnerabilities env vs of (enriched, lg4) \<Rightarrow>
           case analyze_vulnerabilities env enriched of
             Inl e \<Rightarrow> (Inl e, lg1 @ lg2 @ lg3 @ lg4)
           | Inr scored \<Rightarrow>
               (case generate_recommendations env scored of
                  Inl e \<Rightarrow> (Inl e, lg1 @ lg2 @ lg3 @ lg4)
                | Inr recs \<Rightarrow>
                    (let ctx = \<lparr> ctx_targets = tgts,
                                  ctx_nmap_results = nmap_res,
                                  ctx_nikto_results = nikto_res,
                                  ctx_vulnerabilities = enriched,
                                  ctx_scored_vulnerabilities = scored,
                                  ctx_recommendations = recs,
                                  ctx_ai_analysis = None \<rparr>
                     in case run_ai_analysis env ctx of (analysis, lg7) \<Rightarrow>
                          (Inr (ctx\<lparr> ctx_ai_analysis := analysis \<rparr>),
                           lg1 @ lg2 @ lg3 @ lg4 @ lg7)))))"


section \<open>Orchestration: \<open>main_async\<close> (nmapai.py)\<close>

text \<open>
  The stages of the script and the ways it ends early. \<open>SystemExit\<close> carries the reason of
  the message; a later stage may also end the run with an exit of its own.
\<close>

datatype exit_reason =
    MissingDependency string
  | TargetsFileNotFound
  | NoValidTargets
  | DursVulnScriptNotFound
  | NmapFailedWithExitCode int
  | StageExit string

datatype stage = StageNmap | StageSummaries | StageNikto | StageDursVuln | StageAI | StageWrapUp

record cli_args =
  arg_no_nikto :: bool
  arg_dursvuln :: bool
  arg_dursvuln_global :: bool
  arg_ai :: bool
  arg_dry_run :: bool

text \<open>
  What the script finds outside itself: whether the tools are on the path, the text of
  the targets file, whether the DursVuln script file exists, the exit code of the Nmap
  process, and for each later stage whether it returns or ends the run.
\<close>

record cli_env =
  nmap_on_path :: bool
  nikto_on_path :: bool
  targets_file :: "string option"
  durs_script_exists :: bool
  nmap_exit_code :: int
  stage_ends :: "stage \<Rightarrow> exit_reason option"

definition nmap_runner_run :: "cli_args \<Rightarrow> cli_env \<Rightarrow> exit_reason + int" where
  \<comment> \<open>\<open>NmapRunner.run\<close>: \<open>build_cmd\<close> leaves with \<open>SystemExit\<close> when DursVuln is enabled
      with a local script that is not there; a dry run returns 0 without a process\<close>
  "nmap_runner_run args env =
     (if arg_dursvuln args \<and> \<not> arg_dursvuln_global args \<and> \<not> durs_script_exists env
      then Inl DursVulnScriptNotFound
      else if arg_dry_run args then Inr 0
      else Inr (nmap_exit_code env))"

definition read_nonempty_lines :: "string \<Rightarrow> string list" where
  \<comment> \<open>the stripped lines that are not empty and do not start with \<open>#\<close>\<close>
  "read_nonempty_lines content =
     filter (\<lambda>s. s \<noteq> [] \<and> \<not> starts_with ''#'' s) (map py_strip (file_lines content))"

fun run_stages :: "cli_env \<Rightarrow> stage list \<Rightarrow> (exit_reason + unit) \<times> stage list" where
  \<comment> \<open>the enabled stages in order, up to the first one that ends the run\<close>
  "run_stages env [] = (Inr (), [])"
| "run_stages env (st # sts) =
     (case stage_ends env st of
        Some r \<Rightarrow> (Inl r, [st])
      | None \<Rightarrow> (case run_stages env sts of (res, tr) \<Rightarrow> (res, st # tr)))"

definition later_stages :: "cli_args \<Rightarrow> cli_env \<Rightarrow> stage list" where
  \<comment> \<open>the stages after Nmap; \<open>args.no_nikto\<close> is also set when Nikto is not on the path\<close>
  "later_stages args env =
     [StageSummaries]
     @ (if \<not> (arg_no_nikto args \<or> \<not> nikto_on_path env) \<and> \<not> arg_dry_run args
        then [StageNikto] else [])
     @ (if arg_dursvuln args \<and> \<not> arg_dry_run args then [StageDursVuln] else [])
     @ (if arg_ai args \<and> \<not> arg_dry_run args then [StageAI] else [])
     @ [StageWrapUp]"

definition main_async :: "cli_args \<Rightarrow> cli_env \<Rightarrow> (exit_reason + unit) \<times> stage list" where
  \<comment> \<open>the result of the script and the stages it entered\<close>
  "main_async args env =
     (if \<not> nmap_on_path env then (Inl (MissingDependency ''nmap''), [])
      else (case targets_file env of
              None \<Rightarrow> (Inl TargetsFileNotFound, [])
            | Some content \<Rightarrow>
                if read_nonempty_lines content = [] then (Inl NoValidTargets, [])
                else (case nmap_runner_run args env of
                        Inl r \<Rightarrow> (Inl r, [StageNmap])
                      | Inr rc \<Rightarrow>
                          if rc \<noteq> 0 then (Inl (NmapFailedWithExitCode rc), [StageNmap])
                          else (case run_stages env (later_stages args env) of
                                  (res, tr) \<Rightarrow> (res, StageNmap # tr)))))"

text \<open>Sample environments for evaluating the two orchestrators.\<close>

definition plugins_nmap_fails :: "unit plugins" where
  "plugins_nmap_fails =
     \<lparr> nmap_plugin = Some (Inl OSError),
       nikto_plugin = None,
       enricher_plugins = [],
       analyze_vulnerabilities = (\<lambda>vs. Inr vs),
       generate_recommendations = (\<lambda>vs. Inr []),
       ai_plugin = None \<rparr>"

definition cli_nmap_fails :: cli_env where
  "cli_nmap_fails =
     \<lparr> nmap_on_path = True, nikto_on_path = True,
       targets_file = Some ''10.0.0.5'',
       durs_script_exists = True,
       nmap_exit_code = 1,
       stage_ends = (\<lambda>st. None) \<rparr>"

definition cli_all_stages :: cli_args where
  "cli_all_stages =
     \<lparr> arg_no_nikto = False, arg_dursvuln = True, arg_dursvuln_global = True,
       arg_ai = True, arg_dry_run = False \<rparr>"

section \<open>Verified properties\<close>

subsection \<open>Greppable summary\<close>

text \<open>
  Claim C9. The text of the greppable file is the single line
  \<open>Host: 10.0.0.5 () Status: Up Ports: 80/open/tcp//http///, 22/closed/tcp//ssh///\<close>.
  The table written by \<open>summarize_gnmap\<close> then has exactly one row,
  \<open>(10.0.0.5, 80, tcp, http)\<close>, and the segment of the closed port 22 yields no row.
\<close>

theorem summarize_gnmap_example:
  "summarize_gnmap
     (Some ''Host: 10.0.0.5 () Status: Up Ports: 80/open/tcp//http///, 22/closed/tcp//ssh///'')
   = Inr (Some [(''10.0.0.5'', ''80'', ''tcp'', ''http'')])
   \<and> seg_rows ''10.0.0.5'' '' 22/closed/tcp//ssh///'' = []
   \<and> seg_rows ''10.0.0.5'' ''80/open/tcp//http///'' = [(''10.0.0.5'', ''80'', ''tcp'', ''http'')]"
  by (simp add: summarize_gnmap_def file_lines_def universal_newlines_def line_rows_def
      seg_rows_def py_strip_def py_isspace_def py_split_ws_def re_sub_ports_def)


subsection \<open>Structured report\<close>

lemma for_collect_Inr_all:
  "for_collect f xs = Inr ys \<Longrightarrow> x \<in> set xs \<Longrightarrow> \<exists>r. f x = Inr r"
  by (induction xs arbitrary: ys) (auto split: sum.splits)

lemma for_collect_Inr_all2:
  "for_collect f xs = Inr ys \<Longrightarrow>
     list_all2 (\<lambda>x y. f x = Inr (Some y)) (filter (\<lambda>x. f x \<noteq> Inr None) xs) ys"
  by (induction xs arbitrary: ys) (auto split: sum.splits option.splits)

lemma for_collect_Inl:
  "for_collect f xs = Inl e \<Longrightarrow> \<exists>x \<in> set xs. f x = Inl e"
  by (induction xs) (auto split: sum.splits)

lemma parse_port_None_iff:
  "parse_port pe = Inr r \<Longrightarrow> (r \<noteq> None) = port_is_open pe"
  by (auto simp: parse_port_def port_is_open_def split: option.splits sum.splits if_splits)

lemma parse_port_Some:
  "parse_port pe = Inr (Some pd) \<Longrightarrow> port_record_of pe pd"
  by (auto simp: parse_port_def port_record_of_def split: option.splits sum.splits if_splits)

lemma parse_ports_all2:
  assumes "for_collect parse_port pes = Inr ps"
  shows "list_all2 port_record_of (filter port_is_open pes) ps"
proof -
  have eq: "filter (\<lambda>x. parse_port x \<noteq> Inr None) pes = filter port_is_open pes"
  proof (rule filter_cong[OF refl])
    fix x assume "x \<in> set pes"
    then obtain r where r: "parse_port x = Inr r"
      using for_collect_Inr_all[OF assms] by blast
    then show "(parse_port x \<noteq> Inr None) = port_is_open x"
      using parse_port_None_iff[OF r] by simp
  qed
  have "list_all2 (\<lambda>x y. parse_port x = Inr (Some y)) (filter port_is_open pes) ps"
    using for_collect_Inr_all2[OF assms] eq by simp
  then show ?thesis
    by (rule list_all2_mono) (simp add: parse_port_Some)
qed

lemma parse_os_matches:
  "parse_os he = Inr oi \<Longrightarrow>
     (case findall_desc ''osmatch'' he of
        [] \<Rightarrow> oi = None
      | oe # rest \<Rightarrow> map_option os_name oi = Some (get_attr oe ''name''))"
  by (auto simp: parse_os_def find_desc_def split: list.splits option.splits sum.splits)

lemma parse_host_Some:
  assumes "parse_host he = Inr (Some h)"
  shows "host_record_of he h"
proof -
  from assms obtain a ps oi where
    a: "find_address he = Some a" and
    ps: "for_collect parse_port (findall_desc ''port'' he) = Inr ps" and
    oi: "parse_os he = Inr oi" and
    h: "ip h = get_attr a ''addr''" "ports h = ps" "os h = oi"
    by (auto simp: parse_host_def split: option.splits sum.splits)
  show ?thesis
    unfolding host_record_of_def
    using a h parse_ports_all2[OF ps] parse_os_matches[OF oi] by (simp split: list.splits)
qed

lemma parse_host_elem_None_iff:
  "parse_host_elem he = Inr r \<Longrightarrow> (r \<noteq> None) = (host_is_up he \<and> find_address he \<noteq> None)"
  by (auto simp: parse_host_elem_def parse_host_def host_is_up_def
           split: option.splits sum.splits if_splits)

lemma parse_host_elem_Some:
  "parse_host_elem he = Inr (Some h) \<Longrightarrow> host_record_of he h"
  by (auto simp: parse_host_elem_def parse_host_Some split: option.splits if_splits)

lemma parse_root_inventory:
  assumes "parse_root doc = Inr hs"
  shows "inventory_of doc hs"
proof -
  let ?es = "findall_desc ''host'' doc"
  have fc: "for_collect parse_host_elem ?es = Inr hs"
    using assms by (simp add: parse_root_def)
  have eq: "filter (\<lambda>x. parse_host_elem x \<noteq> Inr None) ?es
            = filter (\<lambda>he. host_is_up he \<and> find_address he \<noteq> None) ?es"
  proof (rule filter_cong[OF refl])
    fix x assume "x \<in> set ?es"
    then obtain r where r: "parse_host_elem x = Inr r"
      using for_collect_Inr_all[OF fc] by blast
    then show "(parse_host_elem x \<noteq> Inr None) = (host_is_up x \<and> find_address x \<noteq> None)"
      using parse_host_elem_None_iff[OF r] by simp
  qed
  have "list_all2 (\<lambda>x y. parse_host_elem x = Inr (Some y))
          (filter (\<lambda>he. host_is_up he \<and> find_address he \<noteq> None) ?es) hs"
    using for_collect_Inr_all2[OF fc] eq by simp
  then show ?thesis
    unfolding inventory_of_def
    by (rule list_all2_mono) (simp add: parse_host_elem_Some)
qed


lemmas sample_defs = host_up_443_def host_down_def host_up_no_address_def
  host_up_no_addr_attribute_def host_no_status_def record_up_443_def report_three_hosts_def
  report_no_address_def report_no_addr_attribute_def report_no_status_def

lemmas parser_defs = parse_root_def findall_desc_def parse_host_elem_def find_child_def
  get_attr_def parse_host_def find_address_def find_child_attr_def parse_port_def py_int_opt_def
  py_int_str_def int_strip_def int_isspace_def py_isdigit_def parse_service_def parse_script_def
  findall_child_def parse_os_def find_desc_def find_user_hostname_def

lemma parse_root_three_hosts: "parse_root report_three_hosts = Inr [record_up_443]"
  by (simp add: sample_defs parser_defs)

lemma parse_root_no_status: "parse_root report_no_status = Inl AttributeError"
  by (simp add: sample_defs parser_defs)

text \<open>
  Claim C6, as amended. When no element makes the parser raise, the inventory returned for
  a report is, in document order, exactly the host elements whose status is \<open>up\<close> and that
  have an IPv4 or IPv6 address element; each host record holds exactly the records of its
  port elements whose state is \<open>open\<close>, and its OS guess is that of the first OS-match
  element, absent when there is none. Nothing is logged in that case.
\<close>
theorem parse_xml_inventory:
  assumes "parse_root doc = Inr hs"
  shows "inventory_of doc hs \<and> parse_xml (Document doc) = Inr (hs, [])"
  using assms parse_root_inventory[OF assms] by (simp add: parse_xml_def)

theorem parse_xml_inventory_witness:
  "parse_root report_three_hosts = Inr [record_up_443]
   \<and> inventory_of report_three_hosts [record_up_443]
   \<and> parse_xml (Document report_three_hosts) = Inr ([record_up_443], [])"
proof -
  have h: "parse_root report_three_hosts = Inr [record_up_443]"
    by (rule parse_root_three_hosts)
  from parse_xml_inventory[OF h] h show ?thesis by blast
qed

text \<open>
  The claim as stated fails: a host element that is up but has only a MAC address is not in
  the inventory, and the parser reports no error.
\<close>
theorem parse_xml_up_host_dropped:
  "filter host_is_up (findall_desc ''host'' report_no_address) = [host_up_no_address]
   \<and> parse_xml (Document report_no_address) = Inr ([], [])"
  by (simp add: parse_xml_def sample_defs parser_defs host_is_up_def)

text \<open>
  Claim C7, as amended. The parser never raises and returns the empty host list for a
  missing file, for a file that \<open>ET.parse\<close> rejects, and for a tree one of whose elements
  makes the parser raise. In the last two cases one warning naming the error is printed;
  for a missing file nothing is printed.
\<close>
theorem parse_xml_never_raises:
  "parse_xml NoFile = Inr ([], [])
   \<and> parse_xml (Unparsable x) = Inr ([], [ParseXmlWarning x])
   \<and> (parse_root doc = Inl e \<longrightarrow> parse_xml (Document doc) = Inr ([], [ParseXmlWarning e]))
   \<and> (\<exists>hs lg. parse_xml f = Inr (hs, lg))"
  by (cases f) (auto simp: parse_xml_def split: sum.splits)

theorem parse_xml_never_raises_witness:
  "parse_root report_no_status = Inl AttributeError
   \<and> parse_xml (Document report_no_status) = Inr ([], [ParseXmlWarning AttributeError])"
proof -
  have h: "parse_root report_no_status = Inl AttributeError"
    by (rule parse_root_no_status)
  from parse_xml_never_raises[of _ report_no_status AttributeError] h show ?thesis by blast
qed

text \<open>
  The claim as stated fails for the missing file: the empty list is returned, but nothing
  reaches the log, whereas a file that does not parse leaves a warning there.
\<close>
theorem parse_xml_missing_file_silent:
  "parse_xml NoFile = Inr ([], [])
   \<and> parse_xml (Unparsable XMLParseError) = Inr ([], [ParseXmlWarning XMLParseError])"
  by (simp add: parse_xml_def)

lemma for_collect_Inr_mem:
  "for_collect f xs = Inr ys \<Longrightarrow> y \<in> set ys \<Longrightarrow> \<exists>x \<in> set xs. f x = Inr (Some y)"
  by (induction xs arbitrary: ys) (auto split: sum.splits option.splits)

lemma parse_host_elem_Some_address:
  "parse_host_elem he = Inr (Some h) \<Longrightarrow>
     host_is_up he \<and> (\<exists>a. find_address he = Some a \<and> ip h = get_attr a ''addr'')"
  by (auto simp: parse_host_elem_def parse_host_def host_is_up_def
           split: option.splits sum.splits if_splits)

text \<open>
  Claim C10, as amended. A host element that is up but has neither an IPv4 nor an IPv6
  address element yields no record. Every host record of an inventory comes from a host
  element of the report that is up and has such an address element, and its IP is the
  \<open>addr\<close> attribute of that element, which is \<open>None\<close> when the attribute is not there.
\<close>
theorem parse_xml_hosts_have_address:
  "(host_is_up he \<longrightarrow> find_address he = None \<longrightarrow> parse_host_elem he = Inr None)
   \<and> (parse_xml f = Inr (hs, lg) \<longrightarrow> h \<in> set hs \<longrightarrow>
        (\<exists>doc e a. f = Document doc \<and> e \<in> set (findall_desc ''host'' doc) \<and> host_is_up e
                    \<and> find_address e = Some a \<and> ip h = get_attr a ''addr''))"
proof (intro conjI impI)
  assume "host_is_up he" "find_address he = None"
  then show "parse_host_elem he = Inr None"
    by (auto simp: parse_host_elem_def parse_host_def host_is_up_def split: option.splits)
next
  assume px: "parse_xml f = Inr (hs, lg)" and mem: "h \<in> set hs"
  from px mem obtain doc where f: "f = Document doc" and pr: "parse_root doc = Inr hs"
    by (cases f) (auto simp: parse_xml_def split: sum.splits)
  from pr mem obtain e where e: "e \<in> set (findall_desc ''host'' doc)"
      and pe: "parse_host_elem e = Inr (Some h)"
    using for_collect_Inr_mem[of parse_host_elem "findall_desc ''host'' doc" hs h]
    by (auto simp: parse_root_def)
  from parse_host_elem_Some_address[OF pe] f e
  show "\<exists>doc e a. f = Document doc \<and> e \<in> set (findall_desc ''host'' doc) \<and> host_is_up e
                    \<and> find_address e = Some a \<and> ip h = get_attr a ''addr''"
    by blast
qed

theorem parse_xml_hosts_have_address_witness:
  "host_is_up host_up_no_address \<and> find_address host_up_no_address = None
   \<and> parse_host_elem host_up_no_address = Inr None
   \<and> parse_xml (Document report_three_hosts) = Inr ([record_up_443], [])
   \<and> record_up_443 \<in> set [record_up_443]
   \<and> (\<exists>doc e a. Document report_three_hosts = Document doc
          \<and> e \<in> set (findall_desc ''host'' doc) \<and> host_is_up e
          \<and> find_address e = Some a \<and> ip record_up_443 = get_attr a ''addr'')"
proof -
  have a: "host_is_up host_up_no_address"
    by (simp add: sample_defs host_is_up_def find_child_def get_attr_def)
  have b: "find_address host_up_no_address = None"
    by (simp add: sample_defs find_address_def find_child_attr_def get_attr_def)
  have c: "parse_xml (Document report_three_hosts) = Inr ([record_up_443], [])"
    by (simp add: parse_xml_def parse_root_three_hosts)
  have d: "record_up_443 \<in> set [record_up_443]" by simp
  from parse_xml_hosts_have_address[of host_up_no_address "Document report_three_hosts"
         "[record_up_443]" "[]" record_up_443] a b c d
  show ?thesis by blast
qed

text \<open>
  The claim as stated fails: an address element of type \<open>ipv4\<close> without an \<open>addr\<close>
  attribute gives a host record whose IP is \<open>None\<close>.
\<close>
theorem parse_xml_host_without_ip:
  "parse_xml (Document report_no_addr_attribute)
   = Inr ([\<lparr> ip = None, hostname = None, ports = [], os = None, host_state = ''up'' \<rparr>], [])"
  by (simp add: parse_xml_def sample_defs parser_defs)


subsection \<open>Secondary scan fan-out\<close>

lemmas nikto_defs = scan_def scan_single_def gather_successful_def gather_failed_def
  parse_nikto_output_def parse_nikto_line_def match_after_plus_def match_after_colon_def
  assess_severity_def py_lower_def py_lower_char_def py_strip_def py_isspace_def py_str_opt_def
  target_a_def target_b_def

lemma scan_single_never_raises: "\<exists>r. scan_single t outcome = Inr r"
  by (cases outcome) (simp_all add: scan_single_def)

lemma gather_failed_scan_single:
  "gather_failed (map (\<lambda>(t, outcome). scan_single t outcome) work) = []"
  by (induction work) (auto simp: gather_failed_def scan_single_def split: try_outcome.splits)

lemma gather_successful_scan_single:
  "length (gather_successful (map (\<lambda>(t, outcome). scan_single t outcome) work)) = length work"
  by (induction work) (auto simp: gather_successful_def scan_single_def split: try_outcome.splits)

lemma scan_counts:
  "scan concurrency work = Some (Inr r) \<Longrightarrow>
     total r = length work \<and> successful r = length work \<and> failed r = 0"
  by (auto simp: scan_def Let_def gather_failed_scan_single gather_successful_scan_single
           split: if_splits)

lemma gather_successful_all_Inr:
  "map Inr (gather_successful (map (\<lambda>(t, outcome). scan_single t outcome) work))
   = map (\<lambda>(t, outcome). scan_single t outcome) work"
  by (induction work) (auto simp: gather_successful_def scan_single_def split: try_outcome.splits)

lemma scan_results_pointwise:
  "scan concurrency work = Some (Inr r) \<Longrightarrow>
     map Inr (scans r) = map (\<lambda>(t, outcome). scan_single t outcome) work"
  using gather_successful_all_Inr[of work]
  by (auto simp: scan_def Let_def split: if_splits)

lemma scan_returns:
  "0 < concurrency \<Longrightarrow> \<exists>r. scan concurrency work = Some (Inr r)"
  by (simp add: scan_def Let_def)

text \<open>
  Claim C4. Two targets, concurrency 2; the worker of the first target fails because the
  tool is not found, the second one completes. The second worker's findings are those of
  its own output, but the summary counts both workers as successful and none as failed:
  \<open>total = 2\<close>, \<open>successful = 2\<close>, \<open>failed = 0\<close>, where the claim has \<open>successful = 1\<close> and
  \<open>failed = 1\<close>.
\<close>

theorem scan_failed_worker_counted_successful:
  "scan 2 [(target_a, Raised FileNotFoundError),
           (target_b, Completed ''+ Server: Apache/2.4.1 outdated'')]
   = Some (Inr \<lparr> scans =
                   [\<lparr> sr_target = target_a, sr_findings = [],
                      sr_error = Some FileNotFoundError, sr_output_files = None \<rparr>,
                    \<lparr> sr_target = target_b,
                      sr_findings = [\<lparr> f_type = ''Server'',
                                       f_description = ''Apache/2.4.1 outdated'',
                                       f_severity = ''low'' \<rparr>],
                      sr_error = None,
                      sr_output_files = Some (''10.0.0.6_443.html'', ''10.0.0.6_443.json'') \<rparr>],
                 total = 2, successful = 2, failed = 0 \<rparr>)"
  by (simp add: nikto_defs)

lemma holders_Cons: "holders (a # ws) = (if holds_semaphore a then 1 else 0) + holders ws"
  by (simp add: holders_def)

lemma holders_update:
  "i < length ws \<Longrightarrow>
     holders (ws[i := w]) + (if holds_semaphore (ws ! i) then 1 else 0)
     = holders ws + (if holds_semaphore w then 1 else 0)"
proof (induction ws arbitrary: i)
  case Nil then show ?case by simp
next
  case (Cons a ws)
  show ?case
  proof (cases i)
    case 0 then show ?thesis by (simp add: holders_Cons)
  next
    case (Suc j)
    with Cons.prems have "j < length ws" by simp
    from Cons.IH[OF this] Suc show ?thesis by (simp add: holders_Cons)
  qed
qed

lemma running_le_holders: "length (filter (\<lambda>w. w = Running) ws) \<le> holders ws"
  unfolding holders_def by (induction ws) auto

lemma fan_step_inv:
  assumes "fan_step a s = Some s'" "fan_inv cap s"
  shows "fan_inv cap s'"
proof (cases a)
  case (Acquire i)
  with assms(1) have i: "i < length (workers s)" "workers s ! i = Waiting" "sem_value s > 0"
    and s': "s' = s\<lparr> sem_value := sem_value s - 1, workers := (workers s)[i := Holding] \<rparr>"
    by (auto simp: move_def split: if_splits)
  from holders_update[OF i(1), of Holding] i(2)
  have "holders ((workers s)[i := Holding]) = holders (workers s) + 1" by simp
  with assms(2) i(3) s' show ?thesis by (simp add: fan_inv_def)
next
  case (Spawn i)
  with assms(1) have i: "i < length (workers s)" "workers s ! i = Holding"
    and s': "s' = s\<lparr> workers := (workers s)[i := Running] \<rparr>"
    by (auto simp: move_def split: if_splits)
  from holders_update[OF i(1), of Running] i(2)
  have "holders ((workers s)[i := Running]) = holders (workers s)" by simp
  with assms(2) s' show ?thesis by (simp add: fan_inv_def)
next
  case (SpawnFails i)
  with assms(1) have i: "i < length (workers s)" "workers s ! i = Holding"
    and s': "s' = s\<lparr> sem_value := sem_value s + 1, workers := (workers s)[i := Finished] \<rparr>"
    by (auto simp: move_def split: if_splits)
  from holders_update[OF i(1), of Finished] i(2)
  have "holders ((workers s)[i := Finished]) + 1 = holders (workers s)" by simp
  with assms(2) s' show ?thesis by (simp add: fan_inv_def)
next
  case (ProcessExit i)
  with assms(1) have i: "i < length (workers s)" "workers s ! i = Running"
    and s': "s' = s\<lparr> workers := (workers s)[i := Exited] \<rparr>"
    by (auto simp: move_def split: if_splits)
  from holders_update[OF i(1), of Exited] i(2)
  have "holders ((workers s)[i := Exited]) = holders (workers s)" by simp
  with assms(2) s' show ?thesis by (simp add: fan_inv_def)
next
  case (Leave i)
  with assms(1) have i: "i < length (workers s)" "workers s ! i = Exited"
    and s': "s' = s\<lparr> sem_value := sem_value s + 1, workers := (workers s)[i := Finished] \<rparr>"
    by (auto simp: move_def split: if_splits)
  from holders_update[OF i(1), of Finished] i(2)
  have "holders ((workers s)[i := Finished]) + 1 = holders (workers s)" by simp
  with assms(2) s' show ?thesis by (simp add: fan_inv_def)
qed

lemma fan_run_inv:
  "fan_run as s = Some s' \<Longrightarrow> fan_inv cap s \<Longrightarrow> fan_inv cap s'"
proof (induction as arbitrary: s)
  case Nil then show ?case by simp
next
  case (Cons a as)
  from Cons.prems(1) obtain s1 where a: "fan_step a s = Some s1" and r: "fan_run as s1 = Some s'"
    by (auto split: option.splits)
  from Cons.IH[OF r fan_step_inv[OF a Cons.prems(2)]] show ?case .
qed

lemma holders_replicate_Waiting: "holders (replicate n Waiting) = 0"
  by (simp add: holders_def)


text \<open>
  Claim C8. From the initial state of a fan-out with concurrency \<open>concurrency\<close> over \<open>n\<close>
  targets, after any sequence of worker steps that the semaphore admits, the number of
  running child processes is at most \<open>concurrency\<close>.
\<close>

theorem fan_out_cap:
  assumes "fan_init concurrency n = Inr s0" and "fan_run as s0 = Some s"
  shows "int (running_children s) \<le> concurrency"
proof -
  from assms(1) have c: "0 \<le> concurrency"
    and s0: "s0 = \<lparr> sem_value = nat concurrency, workers = replicate n Waiting \<rparr>"
    by (auto simp: fan_init_def split: if_splits)
  have "fan_inv (nat concurrency) s0"
    by (simp add: s0 fan_inv_def holders_replicate_Waiting)
  from fan_run_inv[OF assms(2) this]
  have "sem_value s + holders (workers s) = nat concurrency" by (simp add: fan_inv_def)
  moreover have "running_children s \<le> holders (workers s)"
    unfolding running_children_def by (rule running_le_holders)
  ultimately have "running_children s \<le> nat concurrency" by linarith
  with c show ?thesis by linarith
qed

theorem fan_out_cap_witness:
  "fan_init 2 5 = Inr \<lparr> sem_value = 2, workers = [Waiting, Waiting, Waiting, Waiting, Waiting] \<rparr>
   \<and> fan_run [Acquire 0, Spawn 0, Acquire 1, Spawn 1]
        \<lparr> sem_value = 2, workers = [Waiting, Waiting, Waiting, Waiting, Waiting] \<rparr>
      = Some \<lparr> sem_value = 0, workers = [Running, Running, Waiting, Waiting, Waiting] \<rparr>
   \<and> int (running_children
             \<lparr> sem_value = 0, workers = [Running, Running, Waiting, Waiting, Waiting] \<rparr>) \<le> 2"
proof -
  have a: "fan_init 2 5
           = Inr \<lparr> sem_value = 2, workers = [Waiting, Waiting, Waiting, Waiting, Waiting] \<rparr>"
    by (simp add: fan_init_def numeral_eq_Suc)
  have b: "fan_run [Acquire 0, Spawn 0, Acquire 1, Spawn 1]
             \<lparr> sem_value = 2, workers = [Waiting, Waiting, Waiting, Waiting, Waiting] \<rparr>
           = Some \<lparr> sem_value = 0, workers = [Running, Running, Waiting, Waiting, Waiting] \<rparr>"
    by (simp add: move_def)
  from fan_out_cap[OF a b] a b show ?thesis by blast
qed

lemma third_worker_waits:
  "fan_run [Acquire 0, Spawn 0, Acquire 1, Spawn 1, Acquire 2]
     \<lparr> sem_value = 2, workers = [Waiting, Waiting, Waiting, Waiting, Waiting] \<rparr> = None"
  by (simp add: move_def)

subsection \<open>Deduplication\<close>

lemma foldl_dedup_step:
  "foldl dedup_step (seen, acc) vs = (seen \<union> set (map vuln_key vs), acc @ dedup_from seen vs)"
  by (induction vs arbitrary: seen acc) (auto simp: dedup_step_def)

lemma deduplicate_dedup_from: "deduplicate vs = dedup_from {} vs"
  by (simp add: deduplicate_def foldl_dedup_step)

lemma dedup_from_keys: "set (map vuln_key (dedup_from seen vs)) = set (map vuln_key vs) - seen"
  by (induction vs arbitrary: seen) auto

lemma dedup_from_distinct: "distinct (map vuln_key (dedup_from seen vs))"
  by (induction vs arbitrary: seen) (auto simp: dedup_from_keys simp del: set_map)

lemma dedup_from_find:
  "List.find (\<lambda>v. vuln_key v = k) (dedup_from seen vs)
   = (if k \<in> seen then None else List.find (\<lambda>v. vuln_key v = k) vs)"
proof (induction vs arbitrary: seen)
  case Nil then show ?case by simp
next
  case (Cons v vs)
  show ?case
  proof (cases "vuln_key v \<in> seen")
    case True
    then show ?thesis using Cons.IH[of seen] by auto
  next
    case False
    then show ?thesis using Cons.IH[of "insert (vuln_key v) seen"] by auto
  qed
qed

lemma dedup_from_subseq: "subseq (dedup_from seen vs) vs"
  by (induction vs arbitrary: seen) auto

lemma dedup_from_unchanged:
  "distinct (map vuln_key vs) \<Longrightarrow> set (map vuln_key vs) \<inter> seen = {} \<Longrightarrow> dedup_from seen vs = vs"
  by (induction vs arbitrary: seen) auto

lemma deduplicate_unchanged: "distinct (map vuln_key vs) \<Longrightarrow> deduplicate vs = vs"
  by (simp add: deduplicate_dedup_from dedup_from_unchanged)

text \<open>
  Claim C5. The deduplicated list has one entry per key \<open>(cve_id, host)\<close>, every key of the
  input is kept, the entry kept for a key is the first entry of the input with that key,
  the entries keep their order, and deduplicating the result again changes nothing.
\<close>

theorem deduplicate_first_wins:
  "distinct (map vuln_key (deduplicate vs))
   \<and> set (map vuln_key (deduplicate vs)) = set (map vuln_key vs)
   \<and> List.find (\<lambda>v. vuln_key v = k) (deduplicate vs) = List.find (\<lambda>v. vuln_key v = k) vs
   \<and> subseq (deduplicate vs) vs
   \<and> deduplicate (deduplicate vs) = deduplicate vs"
proof -
  have d: "distinct (map vuln_key (deduplicate vs))"
    by (simp add: deduplicate_dedup_from dedup_from_distinct)
  have k: "set (map vuln_key (deduplicate vs)) = set (map vuln_key vs)"
    using dedup_from_keys[of "{}" vs] by (simp add: deduplicate_dedup_from)
  have f: "List.find (\<lambda>v. vuln_key v = k) (deduplicate vs) = List.find (\<lambda>v. vuln_key v = k) vs"
    by (simp add: deduplicate_dedup_from dedup_from_find)
  have s: "subseq (deduplicate vs) vs"
    by (simp add: deduplicate_dedup_from dedup_from_subseq)
  have i: "deduplicate (deduplicate vs) = deduplicate vs"
    using d by (rule deduplicate_unchanged)
  from d k f s i show ?thesis by blast
qed

lemma extract_vulnerabilities_distinct:
  "extract_vulnerabilities hosts nikto_scans = Inr vs \<Longrightarrow> distinct (map vuln_key vs)"
  by (auto simp: extract_vulnerabilities_def deduplicate_dedup_from dedup_from_distinct split: sum.splits)

subsection \<open>Attack chains\<close>

lemma py_lower_char_add_32:
  "py_lower_char c =
     (if 65 \<le> (of_char c :: nat) \<and> (of_char c :: nat) \<le> 90
      then char_of (of_char c + 32 :: nat) else c)"
  by (cases c) (auto simp: py_lower_char_def char_of_def bit_simps split: if_splits)

lemma comprehension_Inr:
  "comprehension cond xs = Inr ys \<Longrightarrow>
     ys = filter (\<lambda>x. cond x = Inr True) xs \<and> (\<forall>x \<in> set xs. \<exists>b. cond x = Inr b)"
  unfolding comprehension_def
  by (induction xs arbitrary: ys) (auto split: sum.splits if_splits)

lemma is_rce_Inr: "is_rce v = Inr b \<Longrightarrow> b = remote_indicator v"
  by (cases "v_description v"; cases "v_cvss_score v")
     (auto simp: is_rce_def lower_description_def remote_indicator_def description_text_def
                 cvss_value_def split: if_splits)

lemma is_privesc_Inr: "is_privesc v = Inr b \<Longrightarrow> b = privilege_indicator v"
  by (cases "v_description v")
     (auto simp: is_privesc_def lower_description_def privilege_indicator_def
                 description_text_def)

lemma comprehension_is_rce:
  assumes "comprehension is_rce xs = Inr ys"
  shows "ys = filter remote_indicator xs"
proof -
  from comprehension_Inr[OF assms]
  have ys: "ys = filter (\<lambda>x. is_rce x = Inr True) xs"
    and all: "\<forall>x \<in> set xs. \<exists>b. is_rce x = Inr b" by simp_all
  have "filter (\<lambda>x. is_rce x = Inr True) xs = filter remote_indicator xs"
  proof (rule filter_cong[OF refl])
    fix x assume "x \<in> set xs"
    with all obtain b where b: "is_rce x = Inr b" by blast
    with is_rce_Inr[OF b] show "(is_rce x = Inr True) = remote_indicator x" by auto
  qed
  with ys show ?thesis by simp
qed

lemma comprehension_is_privesc:
  assumes "comprehension is_privesc xs = Inr ys"
  shows "ys = filter privilege_indicator xs"
proof -
  from comprehension_Inr[OF assms]
  have ys: "ys = filter (\<lambda>x. is_privesc x = Inr True) xs"
    and all: "\<forall>x \<in> set xs. \<exists>b. is_privesc x = Inr b" by simp_all
  have "filter (\<lambda>x. is_privesc x = Inr True) xs = filter privilege_indicator xs"
  proof (rule filter_cong[OF refl])
    fix x assume "x \<in> set xs"
    with all obtain b where b: "is_privesc x = Inr b" by blast
    with is_privesc_Inr[OF b] show "(is_privesc x = Inr True) = privilege_indicator x" by auto
  qed
  with ys show ?thesis by simp
qed

lemma find_filter: "List.find P xs = (case filter P xs of [] \<Rightarrow> None | x # ys \<Rightarrow> Some x)"
  by (induction xs) auto

lemma identify_attack_chains_Inr:
  assumes "identify_attack_chains g = Inr cs"
  shows "cs = (case (List.find remote_indicator g, List.find privilege_indicator g) of
                 (Some r, Some p) \<Rightarrow> [rce_to_privesc r p]
               | _ \<Rightarrow> [])"
proof -
  from assms obtain rs ps where
    rs: "comprehension is_rce g = Inr rs" and ps: "comprehension is_privesc g = Inr ps"
    and cs: "cs = (case (rs, ps) of (r # rs', p # ps') \<Rightarrow> [rce_to_privesc r p] | _ \<Rightarrow> [])"
    by (auto simp: identify_attack_chains_def split: sum.splits list.splits)
  from comprehension_is_rce[OF rs] comprehension_is_privesc[OF ps] cs
  show ?thesis
    by (simp add: find_filter split: list.splits)
qed

lemma host_chains_Inr: "host_chains g = Inr cs \<Longrightarrow> cs = expected_chains g"
  by (auto simp: host_chains_def expected_chains_def dest: identify_attack_chains_Inr
           split: if_splits option.splits)

lemma for_concat_Inr:
  "for_concat f xs = Inr ys \<Longrightarrow> (\<And>x y. x \<in> set xs \<Longrightarrow> f x = Inr y \<Longrightarrow> y = g x) \<Longrightarrow>
     ys = concat (map g xs)"
  by (induction xs arbitrary: ys) (auto split: sum.splits)

lemma grouped_step:
  assumes "grouped m vs"
  shows "grouped (by_host_step m v) (vs @ [v])"
proof (cases "host_of v \<in> set (map fst m)")
  case False
  with assms have nin: "host_of v \<notin> host_of ` set vs"
    by (simp add: grouped_def)
  have none: "filter (\<lambda>u. host_of u = host_of v) vs = []"
  proof -
    have "\<not> (host_of x = host_of v)" if "x \<in> set vs" for x
    proof
      assume "host_of x = host_of v"
      with that have "host_of v \<in> host_of ` set vs" by (metis imageI)
      with nin show False by simp
    qed
    then show ?thesis by (simp add: filter_empty_conv)
  qed
  have "\<forall>(h, g) \<in> set m. h \<noteq> host_of v" using False by force
  with assms False none show ?thesis
    by (auto simp: grouped_def by_host_step_def)
next
  case True
  let ?upd = "\<lambda>(h, g). if h = host_of v then (h, g @ [v]) else (h, g)"
  have fst_eq: "map fst (map ?upd m) = map fst m"
    by (induction m) auto
  from True assms have "host_of v \<in> host_of ` set vs" by (simp add: grouped_def)
  then have img: "host_of ` set (vs @ [v]) = host_of ` set vs" by auto
  have el: "g' = filter (\<lambda>u. host_of u = h') (vs @ [v])"
    if "(h', g') \<in> set (map ?upd m)" for h' g'
  proof -
    from that obtain h g where hg: "(h, g) \<in> set m" and eq: "(h', g') = ?upd (h, g)"
      by auto
    from assms hg have g: "g = filter (\<lambda>u. host_of u = h) vs"
      by (auto simp: grouped_def)
    show ?thesis
    proof (cases "h = host_of v")
      case True
      with eq g show ?thesis by simp
    next
      case False
      with eq g show ?thesis by auto
    qed
  qed
  have d: "distinct (map fst (map ?upd m))"
    using assms by (simp only: fst_eq) (simp add: grouped_def)
  have k: "set (map fst (map ?upd m)) = host_of ` set (vs @ [v])"
    using assms by (simp only: fst_eq img) (simp add: grouped_def)
  from True have step: "by_host_step m v = map ?upd m"
    by (simp add: by_host_step_def)
  show ?thesis
    unfolding grouped_def step using d k el by blast
qed

lemma grouped_foldl: "grouped m vs0 \<Longrightarrow> grouped (foldl by_host_step m vs) (vs0 @ vs)"
proof (induction vs arbitrary: m vs0)
  case Nil then show ?case by simp
next
  case (Cons v vs)
  from Cons.IH[OF grouped_step[OF Cons.prems, of v]] show ?case by simp
qed

lemma grouped_group_by_host: "grouped (group_by_host vs) vs"
  using grouped_foldl[of "[]" "[]" vs] by (simp add: grouped_def group_by_host_def)

lemma grouped_snd:
  "grouped m vs \<Longrightarrow> map snd m = map (\<lambda>h. filter (\<lambda>v. host_of v = h) vs) (map fst m)"
  by (auto simp: grouped_def)

lemma expected_chains_le1: "length (expected_chains g) \<le> 1"
  by (simp add: expected_chains_def split: option.splits)

lemma find_None_list_ex: "(List.find P xs = None) = (\<not> list_ex P xs)"
  by (induction xs) auto

lemma expected_chains_iff:
  "(expected_chains g \<noteq> []) =
     (length g \<ge> 2 \<and> list_ex remote_indicator g \<and> list_ex privilege_indicator g)"
  using find_None_list_ex[of remote_indicator g] find_None_list_ex[of privilege_indicator g]
  by (auto simp: expected_chains_def split: option.splits)

lemma is_rce_total:
  "v_description v \<noteq> PyNone \<Longrightarrow> v_cvss_score v \<noteq> PyNone \<Longrightarrow> \<exists>b. is_rce v = Inr b"
  by (cases "v_description v"; cases "v_cvss_score v")
     (auto simp: is_rce_def lower_description_def)

lemma is_privesc_total: "v_description v \<noteq> PyNone \<Longrightarrow> \<exists>b. is_privesc v = Inr b"
  by (cases "v_description v") (auto simp: is_privesc_def lower_description_def)

lemma comprehension_total:
  "(\<And>x. x \<in> set xs \<Longrightarrow> \<exists>b. cond x = Inr b) \<Longrightarrow> \<exists>ys. comprehension cond xs = Inr ys"
proof (induction xs)
  case Nil then show ?case by (simp add: comprehension_def)
next
  case (Cons x xs)
  from Cons.prems[of x] obtain b where b: "cond x = Inr b" by auto
  from Cons.IH Cons.prems obtain ys where ys: "comprehension cond xs = Inr ys" by auto
  from b ys show ?case by (auto simp: comprehension_def)
qed

lemma identify_attack_chains_total:
  assumes "\<And>v. v \<in> set g \<Longrightarrow> v_description v \<noteq> PyNone \<and> v_cvss_score v \<noteq> PyNone"
  shows "\<exists>cs. identify_attack_chains g = Inr cs"
proof -
  from comprehension_total[of g is_rce] assms is_rce_total
  obtain rs where rs: "comprehension is_rce g = Inr rs" by blast
  from comprehension_total[of g is_privesc] assms is_privesc_total
  obtain ps where ps: "comprehension is_privesc g = Inr ps" by blast
  from rs ps show ?thesis
    by (auto simp: identify_attack_chains_def split: list.splits)
qed

lemma for_concat_total:
  "(\<And>x. x \<in> set xs \<Longrightarrow> \<exists>ys. f x = Inr ys) \<Longrightarrow> \<exists>zs. for_concat f xs = Inr zs"
proof (induction xs)
  case Nil then show ?case by simp
next
  case (Cons x xs)
  from Cons.prems[of x] obtain ys where ys: "f x = Inr ys" by auto
  from Cons.IH Cons.prems obtain zs where zs: "for_concat f xs = Inr zs" by auto
  from ys zs show ?case by simp
qed

lemma grouped_subset: "grouped m vs \<Longrightarrow> (h, g) \<in> set m \<Longrightarrow> set g \<subseteq> set vs"
  by (auto simp: grouped_def)

lemma correlate_vulnerabilities_total:
  assumes "\<And>v. v \<in> set vs \<Longrightarrow> v_description v \<noteq> PyNone \<and> v_cvss_score v \<noteq> PyNone"
  shows "\<exists>r. correlate_vulnerabilities vs = Inr r"
proof -
  have "\<exists>cs. host_chains g = Inr cs" if "g \<in> set (map snd (group_by_host vs))" for g
  proof -
    from that obtain h where "(h, g) \<in> set (group_by_host vs)" by auto
    from grouped_subset[OF grouped_group_by_host this] have "set g \<subseteq> set vs" .
    with assms have "\<And>v. v \<in> set g \<Longrightarrow> v_description v \<noteq> PyNone \<and> v_cvss_score v \<noteq> PyNone"
      by blast
    from identify_attack_chains_total[OF this] show ?thesis
      by (auto simp: host_chains_def)
  qed
  from for_concat_total[of "map snd (group_by_host vs)" host_chains, OF this]
  obtain zs where "for_concat host_chains (map snd (group_by_host vs)) = Inr zs" by blast
  then show ?thesis by (simp add: correlate_vulnerabilities_def Let_def)
qed

text \<open>
  Claim C3, as amended. When the correlation does not raise, the attack chains it returns
  are those of the host groups, in the order in which the hosts first occur; the group of
  a host is the list of the vulnerabilities with that host (\<open>unknown\<close> for a vulnerability
  without host entry). A group yields one chain of type \<open>rce_to_privesc\<close> with risk
  \<open>critical\<close>, naming the first vulnerability with the remote indicator and the first with
  the privilege indicator, if and only if it has at least two vulnerabilities, one with
  the remote indicator (description containing \<open>remote\<close> in any letter case, or CVSS score
  at least 9) and one with the privilege indicator (description containing \<open>privilege\<close>
  in any letter case); otherwise it yields none. A group never yields two chains.
\<close>

theorem correlate_attack_chains:
  assumes "correlate_vulnerabilities vs = Inr r"
  shows "attack_chains r = concat (map (\<lambda>(h, g). expected_chains g) (group_by_host vs))
         \<and> distinct (map fst (group_by_host vs))
         \<and> set (map fst (group_by_host vs)) = host_of ` set vs
         \<and> map snd (group_by_host vs)
             = map (\<lambda>h. filter (\<lambda>v. host_of v = h) vs) (map fst (group_by_host vs))
         \<and> length (expected_chains g) \<le> 1
         \<and> (expected_chains g \<noteq> [])
             = (length g \<ge> 2 \<and> list_ex remote_indicator g \<and> list_ex privilege_indicator g)"
proof -
  from assms have fc: "for_concat host_chains (map snd (group_by_host vs)) = Inr (attack_chains r)"
    by (auto simp: correlate_vulnerabilities_def Let_def split: sum.splits)
  have "attack_chains r = concat (map expected_chains (map snd (group_by_host vs)))"
    by (rule for_concat_Inr[OF fc]) (rule host_chains_Inr)
  then have a: "attack_chains r = concat (map (\<lambda>(h, g). expected_chains g) (group_by_host vs))"
    by (simp add: case_prod_unfold comp_def)
  have g: "grouped (group_by_host vs) vs" by (rule grouped_group_by_host)
  from g have b: "distinct (map fst (group_by_host vs))"
      and c: "set (map fst (group_by_host vs)) = host_of ` set vs"
    by (simp_all add: grouped_def)
  from a b c grouped_snd[OF g] expected_chains_le1[of g] expected_chains_iff[of g]
  show ?thesis by blast
qed

lemmas correlate_defs = correlate_vulnerabilities_def group_by_host_def by_host_step_def
  host_of_def host_chains_def identify_attack_chains_def comprehension_def is_rce_def
  is_privesc_def lower_description_def py_lower_def py_lower_char_def
  identify_high_risk_hosts_def has_risk_level_def sample_vuln_def vuln_both_def
  vuln_remote_upper_def vuln_privilege_upper_def sample_vulns_def sample_correlation_def

lemma correlate_sample: "correlate_vulnerabilities sample_vulns = Inr sample_correlation"
  by (simp add: correlate_defs)

theorem correlate_attack_chains_witness:
  "correlate_vulnerabilities sample_vulns = Inr sample_correlation
   \<and> attack_chains sample_correlation
       = concat (map (\<lambda>(h, g). expected_chains g) (group_by_host sample_vulns))
   \<and> distinct (map fst (group_by_host sample_vulns))
   \<and> set (map fst (group_by_host sample_vulns)) = host_of ` set sample_vulns
   \<and> map snd (group_by_host sample_vulns)
       = map (\<lambda>h. filter (\<lambda>v. host_of v = h) sample_vulns) (map fst (group_by_host sample_vulns))
   \<and> length (expected_chains [vuln_remote_upper, vuln_privilege_upper]) \<le> 1
   \<and> (expected_chains [vuln_remote_upper, vuln_privilege_upper] \<noteq> [])
       = (length [vuln_remote_upper, vuln_privilege_upper] \<ge> 2
          \<and> list_ex remote_indicator [vuln_remote_upper, vuln_privilege_upper]
          \<and> list_ex privilege_indicator [vuln_remote_upper, vuln_privilege_upper])"
proof -
  have h: "correlate_vulnerabilities sample_vulns = Inr sample_correlation"
    by (rule correlate_sample)
  from correlate_attack_chains[OF h, of "[vuln_remote_upper, vuln_privilege_upper]"] h
  show ?thesis by blast
qed

text \<open>
  The claim as stated fails in both directions. A host whose only vulnerability has the
  description \<open>remote privilege escalation\<close> has both indicators and gets no chain; a host
  with the descriptions \<open>Remote code execution\<close> and \<open>Privilege escalation\<close>, neither of
  which contains the lower-case word, gets a chain.
\<close>

theorem correlate_claim_fails:
  "list_ex remote_indicator [vuln_both] \<and> list_ex privilege_indicator [vuln_both]
   \<and> correlate_vulnerabilities [vuln_both] = Inr \<lparr> attack_chains = [], high_risk_hosts = [] \<rparr>
   \<and> \<not> str_contains ''remote'' (description_text vuln_remote_upper)
   \<and> cvss_value vuln_remote_upper < 9
   \<and> \<not> str_contains ''privilege'' (description_text vuln_privilege_upper)
   \<and> correlate_vulnerabilities [vuln_remote_upper, vuln_privilege_upper]
       = Inr \<lparr> attack_chains = [rce_to_privesc vuln_remote_upper vuln_privilege_upper],
               high_risk_hosts = [] \<rparr>"
  by (simp add: correlate_defs remote_indicator_def privilege_indicator_def
      description_text_def cvss_value_def)

subsection \<open>Scoring\<close>

text \<open>
  Claim C2. With the default weights the priority score is
  \<open>100 * clip(0.35 * (cvss / 10) + 0.25 * epss + 0.20 * exploitAvailable
  + 0.10 * serviceExposure + 0.10 * ageFactor, 0, 1)\<close>, a missing factor contributes 0, the
  score lies between 0 and 100 (for any weights), and the risk level is critical exactly
  from 90, high exactly from 70 to below 90, medium exactly from 40 to below 70, and low
  below 40.
\<close>

theorem priority_score_and_risk_level:
  "priorityScore default_scoring_weights f
     = 100 * clip (0.35 * (contribution (cvss f) / 10)
                   + 0.25 * contribution (epss f)
                   + 0.20 * contribution (exploitAvailable f)
                   + 0.10 * contribution (serviceExposure f)
                   + 0.10 * contribution (ageFactor f)) 0 1
   \<and> contribution None = 0
   \<and> 0 \<le> priorityScore w f
   \<and> priorityScore w f \<le> 100
   \<and> (riskLevel s = Critical) = (s \<ge> 90)
   \<and> (riskLevel s = High) = (70 \<le> s \<and> s < 90)
   \<and> (riskLevel s = Medium) = (40 \<le> s \<and> s < 70)
   \<and> (riskLevel s = Low) = (s < 40)"
proof -
  have formula: "priorityScore default_scoring_weights f
     = 100 * clip (0.35 * (contribution (cvss f) / 10)
                   + 0.25 * contribution (epss f)
                   + 0.20 * contribution (exploitAvailable f)
                   + 0.10 * contribution (serviceExposure f)
                   + 0.10 * contribution (ageFactor f)) 0 1"
    by (simp add: priorityScore_def default_scoring_weights_def)
  have missing: "contribution None = 0"
    by (simp add: contribution_def)
  have lo: "0 \<le> priorityScore w f"
    by (simp add: priorityScore_def clip_def)
  have hi: "priorityScore w f \<le> 100"
    by (simp add: priorityScore_def clip_def)
  have c: "(riskLevel s = Critical) = (s \<ge> 90)"
    by (simp add: riskLevel_def)
  have h: "(riskLevel s = High) = (70 \<le> s \<and> s < 90)"
    by (auto simp: riskLevel_def)
  have m: "(riskLevel s = Medium) = (40 \<le> s \<and> s < 70)"
    by (auto simp: riskLevel_def)
  have l: "(riskLevel s = Low) = (s < 40)"
    by (auto simp: riskLevel_def)
  from formula missing lo hi c h m l show ?thesis by blast
qed

subsection \<open>Failure of the primary scan\<close>

lemmas run_scan_defs = run_scan_def run_nmap_def run_nikto_def enrich_vulnerabilities_def
  run_ai_analysis_def hosts_of_def scans_of_def extract_vulnerabilities_def deduplicate_def
  nikto_vulns_def

lemmas main_async_defs = main_async_def nmap_runner_run_def later_stages_def
  read_nonempty_lines_def file_lines_def universal_newlines_def py_strip_def py_isspace_def

lemma run_nmap_failure:
  "nmap_plugin env = Some (Inl e) \<Longrightarrow> run_nmap env = (None, [PhaseBanner 1, NmapFailed e])"
  by (simp add: run_nmap_def)

lemma run_nmap_empty:
  "run_nmap (env\<lparr> nmap_plugin := Some (Inr None) \<rparr>) = (None, [PhaseBanner 1, NmapCompleted 0])"
  by (simp add: run_nmap_def hosts_of_def)

lemma run_nikto_log: "\<exists>res l. run_nikto env nr = (res, [PhaseBanner 2, l])"
  by (auto simp: run_nikto_def split: option.splits sum.splits)

lemma run_scan_shape:
  "\<exists>res rest. run_scan env tgts
       = (res, snd (run_nmap env) @ snd (run_nikto env (fst (run_nmap env))) @ rest)
     \<and> (case res of Inl x \<Rightarrow> True | Inr ctx \<Rightarrow> ctx_nmap_results ctx = fst (run_nmap env))"
  by (auto simp: run_scan_def Let_def split: prod.splits sum.splits)

lemma run_scan_after_failure:
  assumes "nmap_plugin env = Some (Inl e)"
  shows "\<exists>res lg. run_scan env tgts = (res, PhaseBanner 1 # NmapFailed e # PhaseBanner 2 # lg)
           \<and> (case res of Inl x \<Rightarrow> True | Inr ctx \<Rightarrow> ctx_nmap_results ctx = None)"
proof -
  obtain nres l where n: "run_nikto env None = (nres, [PhaseBanner 2, l])"
    using run_nikto_log[of env None] by blast
  from run_scan_shape[of env tgts] obtain res rest where
    r: "run_scan env tgts
          = (res, snd (run_nmap env) @ snd (run_nikto env (fst (run_nmap env))) @ rest)"
    and c: "(case res of Inl x \<Rightarrow> True | Inr ctx \<Rightarrow> ctx_nmap_results ctx = fst (run_nmap env))"
    by blast
  from r have "run_scan env tgts
                 = (res, PhaseBanner 1 # NmapFailed e # PhaseBanner 2 # (l # rest))"
    by (simp add: run_nmap_failure[OF assms] n)
  moreover from c have "(case res of Inl x \<Rightarrow> True | Inr ctx \<Rightarrow> ctx_nmap_results ctx = None)"
    by (cases res) (simp_all add: run_nmap_failure[OF assms])
  ultimately show ?thesis by blast
qed

lemma run_scan_same_as_empty:
  assumes "nmap_plugin env = Some (Inl e)"
  shows "fst (run_scan env tgts) = fst (run_scan (env\<lparr> nmap_plugin := Some (Inr None) \<rparr>) tgts)"
  unfolding run_scan_def run_nmap_failure[OF assms] run_nmap_empty
  by (simp add: run_nikto_def enrich_vulnerabilities_def run_ai_analysis_def Let_def
           split: sum.splits prod.splits option.splits)

lemma extract_after_failure:
  "extract_vulnerabilities (hosts_of None) sc = Inr (deduplicate (nikto_vulns sc))"
  by (simp add: extract_vulnerabilities_def hosts_of_def)

lemma enrich_banner: "\<exists>out lg. enrich_vulnerabilities env vs = (out, PhaseBanner 4 # lg)"
  by (auto simp: enrich_vulnerabilities_def split: prod.splits)

lemma ai_banner: "\<exists>an l. run_ai_analysis env ctx = (an, [PhaseBanner 7, l])"
  by (auto simp: run_ai_analysis_def split: option.splits sum.splits)

lemma run_scan_returns_after_failure:
  assumes f: "nmap_plugin env = Some (Inl e)"
    and a: "\<forall>vs. \<exists>scored. analyze_vulnerabilities env vs = Inr scored"
    and g: "\<forall>vs. \<exists>recs. generate_recommendations env vs = Inr recs"
  shows "\<exists>ctx lg. run_scan env tgts
             = (Inr ctx, PhaseBanner 1 # NmapFailed e # PhaseBanner 2 # lg)
           \<and> ctx_nmap_results ctx = None
           \<and> ctx_targets ctx = tgts
           \<and> analyze_vulnerabilities env (ctx_vulnerabilities ctx)
               = Inr (ctx_scored_vulnerabilities ctx)
           \<and> generate_recommendations env (ctx_scored_vulnerabilities ctx)
               = Inr (ctx_recommendations ctx)
           \<and> PhaseBanner 3 \<in> set lg \<and> PhaseBanner 4 \<in> set lg \<and> PhaseBanner 7 \<in> set lg"
proof -
  obtain nres l where n: "run_nikto env None = (nres, [PhaseBanner 2, l])"
    using run_nikto_log[of env None] by blast
  let ?vs = "deduplicate (nikto_vulns (scans_of nres))"
  obtain enr lg4 where en: "enrich_vulnerabilities env ?vs = (enr, PhaseBanner 4 # lg4)"
    using enrich_banner[of env ?vs] by blast
  from a obtain sc where sc: "analyze_vulnerabilities env enr = Inr sc" by blast
  from g obtain recs where recs: "generate_recommendations env sc = Inr recs" by blast
  let ?ctx = "\<lparr> ctx_targets = tgts, ctx_nmap_results = None, ctx_nikto_results = nres,
                ctx_vulnerabilities = enr, ctx_scored_vulnerabilities = sc,
                ctx_recommendations = recs, ctx_ai_analysis = None \<rparr>"
  obtain an l7 where ai: "run_ai_analysis env ?ctx = (an, [PhaseBanner 7, l7])"
    using ai_banner[of env ?ctx] by blast
  have "run_scan env tgts
          = (Inr (?ctx\<lparr> ctx_ai_analysis := an \<rparr>),
             PhaseBanner 1 # NmapFailed e # PhaseBanner 2 #
               (l # PhaseBanner 3 # ExtractedUnique (length ?vs) # PhaseBanner 4 # lg4
                  @ [PhaseBanner 7, l7]))"
    by (simp add: run_scan_def run_nmap_failure[OF f] n extract_after_failure en sc recs ai
             Let_def)
  then show ?thesis using sc recs by force
qed

lemma run_scan_raises_when_scoring_raises:
  assumes "nmap_plugin env = Some (Inl e)" and "\<forall>vs. analyze_vulnerabilities env vs = Inl x"
  shows "fst (run_scan env tgts) = Inl x"
  using assms
  by (simp add: run_scan_def run_nmap_failure extract_after_failure Let_def
           split: prod.splits sum.splits)

lemma read_nonempty_lines_carriage_returns:
  "read_nonempty_lines (''#targets'' @ [CHR 0x0D] @ ''10.0.0.5'' @ [CHR 0x0D, CHR 0x0A] @ ''10.0.0.6'')
   = [''10.0.0.5'', ''10.0.0.6'']"
  by (simp add: read_nonempty_lines_def file_lines_def universal_newlines_def py_strip_def
      py_isspace_def)

text \<open>
  Claim C1, as amended. In \<open>ScannerManager.run_scan\<close> a failing Nmap plugin does not end
  the run: the failure is printed, phase 2 starts next, a context that is returned holds
  the empty Nmap result, and the outcome of the run is the outcome of the run in which
  the plugin returned the empty dictionary. When the scoring and the recommendation
  phase, which have no handler, return, the run goes through phases 3, 4 and 7 as well
  and returns a context, with the empty Nmap result and with the scored vulnerabilities
  and recommendations those two phases computed. In the script \<open>main_async\<close> a non-zero
  exit code of Nmap ends the run with \<open>SystemExit\<close> right after the Nmap stage: no later
  stage is entered and nothing is returned.
\<close>

theorem primary_scan_failure:
  "(nmap_plugin env = Some (Inl e) \<longrightarrow>
      (\<exists>res lg. run_scan env tgts = (res, PhaseBanner 1 # NmapFailed e # PhaseBanner 2 # lg)
          \<and> (case res of Inl x \<Rightarrow> True | Inr ctx \<Rightarrow> ctx_nmap_results ctx = None))
      \<and> fst (run_scan env tgts) = fst (run_scan (env\<lparr> nmap_plugin := Some (Inr None) \<rparr>) tgts)
      \<and> ((\<forall>vs. \<exists>scored. analyze_vulnerabilities env vs = Inr scored) \<longrightarrow>
          (\<forall>vs. \<exists>recs. generate_recommendations env vs = Inr recs) \<longrightarrow>
          (\<exists>ctx lg. run_scan env tgts
                        = (Inr ctx, PhaseBanner 1 # NmapFailed e # PhaseBanner 2 # lg)
              \<and> ctx_nmap_results ctx = None
              \<and> ctx_targets ctx = tgts
              \<and> analyze_vulnerabilities env (ctx_vulnerabilities ctx)
                  = Inr (ctx_scored_vulnerabilities ctx)
              \<and> generate_recommendations env (ctx_scored_vulnerabilities ctx)
                  = Inr (ctx_recommendations ctx)
              \<and> PhaseBanner 3 \<in> set lg \<and> PhaseBanner 4 \<in> set lg \<and> PhaseBanner 7 \<in> set lg)))
   \<and> (nmap_on_path cenv \<longrightarrow> targets_file cenv = Some content \<longrightarrow>
        read_nonempty_lines content \<noteq> [] \<longrightarrow> nmap_runner_run args cenv = Inr rc \<longrightarrow> rc \<noteq> 0 \<longrightarrow>
        main_async args cenv = (Inl (NmapFailedWithExitCode rc), [StageNmap]))"
proof (intro conjI impI)
  assume f: "nmap_plugin env = Some (Inl e)"
  show "\<exists>res lg. run_scan env tgts = (res, PhaseBanner 1 # NmapFailed e # PhaseBanner 2 # lg)
          \<and> (case res of Inl x \<Rightarrow> True | Inr ctx \<Rightarrow> ctx_nmap_results ctx = None)"
    by (rule run_scan_after_failure[OF f])
  show "fst (run_scan env tgts) = fst (run_scan (env\<lparr> nmap_plugin := Some (Inr None) \<rparr>) tgts)"
    by (rule run_scan_same_as_empty[OF f])
next
  assume f: "nmap_plugin env = Some (Inl e)"
    and a: "\<forall>vs. \<exists>scored. analyze_vulnerabilities env vs = Inr scored"
    and g: "\<forall>vs. \<exists>recs. generate_recommendations env vs = Inr recs"
  show "\<exists>ctx lg. run_scan env tgts
                        = (Inr ctx, PhaseBanner 1 # NmapFailed e # PhaseBanner 2 # lg)
              \<and> ctx_nmap_results ctx = None
              \<and> ctx_targets ctx = tgts
              \<and> analyze_vulnerabilities env (ctx_vulnerabilities ctx)
                  = Inr (ctx_scored_vulnerabilities ctx)
              \<and> generate_recommendations env (ctx_scored_vulnerabilities ctx)
                  = Inr (ctx_recommendations ctx)
              \<and> PhaseBanner 3 \<in> set lg \<and> PhaseBanner 4 \<in> set lg \<and> PhaseBanner 7 \<in> set lg"
    by (rule run_scan_returns_after_failure[OF f a g])
next
  assume "nmap_on_path cenv" "targets_file cenv = Some content"
    "read_nonempty_lines content \<noteq> []" "nmap_runner_run args cenv = Inr rc" "rc \<noteq> 0"
  then show "main_async args cenv = (Inl (NmapFailedWithExitCode rc), [StageNmap])"
    by (simp add: main_async_def)
qed

theorem primary_scan_failure_witness:
  "nmap_plugin plugins_nmap_fails = Some (Inl OSError)
   \<and> (\<exists>res lg. run_scan plugins_nmap_fails [''10.0.0.0/24'']
                  = (res, PhaseBanner 1 # NmapFailed OSError # PhaseBanner 2 # lg)
          \<and> (case res of Inl x \<Rightarrow> True | Inr ctx \<Rightarrow> ctx_nmap_results ctx = None))
   \<and> fst (run_scan plugins_nmap_fails [''10.0.0.0/24''])
       = fst (run_scan (plugins_nmap_fails\<lparr> nmap_plugin := Some (Inr None) \<rparr>) [''10.0.0.0/24''])
   \<and> (\<forall>vs. \<exists>scored. analyze_vulnerabilities plugins_nmap_fails vs = Inr scored)
   \<and> (\<forall>vs. \<exists>recs. generate_recommendations plugins_nmap_fails vs = Inr recs)
   \<and> (\<exists>ctx lg. run_scan plugins_nmap_fails [''10.0.0.0/24'']
                  = (Inr ctx, PhaseBanner 1 # NmapFailed OSError # PhaseBanner 2 # lg)
          \<and> ctx_nmap_results ctx = None
          \<and> ctx_targets ctx = [''10.0.0.0/24'']
          \<and> analyze_vulnerabilities plugins_nmap_fails (ctx_vulnerabilities ctx)
              = Inr (ctx_scored_vulnerabilities ctx)
          \<and> generate_recommendations plugins_nmap_fails (ctx_scored_vulnerabilities ctx)
              = Inr (ctx_recommendations ctx)
          \<and> PhaseBanner 3 \<in> set lg \<and> PhaseBanner 4 \<in> set lg \<and> PhaseBanner 7 \<in> set lg)
   \<and> nmap_on_path cli_nmap_fails \<and> targets_file cli_nmap_fails = Some ''10.0.0.5''
   \<and> read_nonempty_lines ''10.0.0.5'' \<noteq> []
   \<and> nmap_runner_run cli_all_stages cli_nmap_fails = Inr 1 \<and> (1::int) \<noteq> 0
   \<and> main_async cli_all_stages cli_nmap_fails = (Inl (NmapFailedWithExitCode 1), [StageNmap])"
proof -
  have a: "nmap_plugin plugins_nmap_fails = Some (Inl OSError)"
    by (simp add: plugins_nmap_fails_def)
  have p5: "\<forall>vs. \<exists>scored. analyze_vulnerabilities plugins_nmap_fails vs = Inr scored"
    by (simp add: plugins_nmap_fails_def)
  have p6: "\<forall>vs. \<exists>recs. generate_recommendations plugins_nmap_fails vs = Inr recs"
    by (simp add: plugins_nmap_fails_def)
  have b: "nmap_on_path cli_nmap_fails" "targets_file cli_nmap_fails = Some ''10.0.0.5''"
    by (simp_all add: cli_nmap_fails_def)
  have c: "read_nonempty_lines ''10.0.0.5'' \<noteq> []"
    by (simp add: read_nonempty_lines_def file_lines_def universal_newlines_def py_strip_def
        py_isspace_def)
  have d: "nmap_runner_run cli_all_stages cli_nmap_fails = Inr 1"
    by (simp add: nmap_runner_run_def cli_all_stages_def cli_nmap_fails_def)
  have e: "(1::int) \<noteq> 0" by simp
  from primary_scan_failure[of plugins_nmap_fails OSError "[''10.0.0.0/24'']" cli_nmap_fails
         "''10.0.0.5''" cli_all_stages 1] a p5 p6 b c d e
  show ?thesis by blast
qed

text \<open>
  The claim as stated fails for \<open>ScannerManager.run_scan\<close>: with a failing Nmap plugin the
  run goes through all later phases on the empty result and returns a context that
  carries no error.
\<close>

theorem run_scan_continues_after_nmap_failure:
  "nmap_plugin plugins_nmap_fails = Some (Inl OSError)
   \<and> run_scan plugins_nmap_fails [''10.0.0.0/24'']
       = (Inr \<lparr> ctx_targets = [''10.0.0.0/24''], ctx_nmap_results = None,
                 ctx_nikto_results = NiktoEmpty, ctx_vulnerabilities = [],
                 ctx_scored_vulnerabilities = [], ctx_recommendations = [],
                 ctx_ai_analysis = None \<rparr>,
          [PhaseBanner 1, NmapFailed OSError, PhaseBanner 2, NiktoNotAvailable,
           PhaseBanner 3, ExtractedUnique 0, PhaseBanner 4, NoVulnsToEnrich,
           PhaseBanner 7, AINotConfigured])"
  by (simp add: plugins_nmap_fails_def run_scan_defs)

end
